theory Spec2Isabelle
  imports Complex_Main
begin

section \<open>Data model of the scatter grid (GpuScatterGrid.tsx)\<close>

text \<open>
  The component is modelled in two readings. In the first, JavaScript numbers are real
  numbers and the \<open>Float32Array\<close> buffers lists of reals: the arithmetic of the formulas
  is exact. It is used for the layout, the renderer and the pointer handler, and where a
  statement is about one concrete panel whose numbers are computed without rounding. The
  values \<open>Infinity\<close> and \<open>NaN\<close> are not reals; where the source starts from them or can
  produce them, this is written out at the definition concerned. In the second reading
  (sections \<open>JavaScript numbers with rounding\<close> and \<open>The normaliser with rounding\<close>)
  the normaliser is written over numbers that round, overflow to an infinity and can be
  \<open>NaN\<close>, as the arithmetic of the code does; the statements on what the normaliser
  stores and on the range of what it places are made there. The coordinates of a point
  are finite numbers in both readings.
\<close>

type_synonym rgb = "real \<times> real \<times> real"

text \<open>\<open>Point\<close>: \<open>{ x, y, size?, color? }\<close>; an absent optional field is \<open>None\<close>.\<close>

record Point =
  pt_x :: real
  pt_y :: real
  pt_size :: "real option"
  pt_color :: "rgb option"

text \<open>\<open>ChartData\<close>: \<open>{ id, title, side, points, color? }\<close>.\<close>

record ChartData =
  c_id :: string
  c_title :: string
  c_side :: string
  c_points :: "Point list"
  c_color :: "rgb option"

text \<open>\<open>Prepared\<close>: the three flat buffers, the point count and the four stored bounds.\<close>

record Prepared =
  prep_id :: string
  prep_pos :: "real list"
  prep_size :: "real list"
  prep_color :: "real list"
  prep_count :: nat
  prep_xmin :: real
  prep_xmax :: real
  prep_ymin :: real
  prep_ymax :: real

text \<open>
  The component's props. The defaults of the source are \<open>columns = 6\<close>,
  \<open>cellHeight = 280\<close>, \<open>cellGap = 20\<close>, \<open>pointSizeRange = [2, 12]\<close> and
  \<open>defaultColor = [0.35, 0.52, 0.92]\<close>. The column count is a natural number.
\<close>

record Props =
  charts :: "ChartData list"
  columns :: nat
  cellHeight :: real
  cellGap :: real
  pointSizeRange :: "real \<times> real"
  defaultColor :: rgb

text \<open>The six running extrema of the range scan.\<close>

record Ranges =
  r_xmin :: real
  r_xmax :: real
  r_ymin :: real
  r_ymax :: real
  r_smin :: real
  r_smax :: real

text \<open>The four bounds of a panel, as a value (the locals \<open>xmin, xmax, ymin, ymax\<close>).\<close>

record Bounds =
  b_xmin :: real
  b_xmax :: real
  b_ymin :: real
  b_ymax :: real

section \<open>JavaScript operators\<close>

text \<open>\<open>a || b\<close> on numbers: \<open>b\<close> when \<open>a\<close> is falsy, which for a real is \<open>a = 0\<close>.\<close>

definition jsOr :: "real \<Rightarrow> real \<Rightarrow> real" where
  "jsOr a b = (if a = 0 then b else a)"

text \<open>\<open>a ?? b\<close>: \<open>b\<close> when \<open>a\<close> is undefined.\<close>

definition nullish :: "real option \<Rightarrow> real \<Rightarrow> real" where
  "nullish a b = (case a of None \<Rightarrow> b | Some v \<Rightarrow> v)"

section \<open>Coordinate normalisation: the \<open>prepared\<close> memo\<close>

text \<open>
  The scan starts from \<open>xmin = Infinity, xmax = -Infinity\<close> (and so on for y and size).
  Every comparison of a finite number with these succeeds, so after the first point all
  six extrema are that point's values, and from then on they are finite. The state of the
  scan is therefore \<open>None\<close> (nothing seen, all six still infinite) or \<open>Some r\<close>.
\<close>

definition scanPoint :: "Point \<Rightarrow> Ranges option \<Rightarrow> Ranges option" where
  "scanPoint p st =
     (let s = nullish (pt_size p) 1 in
      case st of
        None \<Rightarrow> Some \<lparr>r_xmin = pt_x p, r_xmax = pt_x p, r_ymin = pt_y p, r_ymax = pt_y p,
                      r_smin = s, r_smax = s\<rparr>
      | Some r \<Rightarrow> Some \<lparr>
          r_xmin = (if pt_x p < r_xmin r then pt_x p else r_xmin r),
          r_xmax = (if pt_x p > r_xmax r then pt_x p else r_xmax r),
          r_ymin = (if pt_y p < r_ymin r then pt_y p else r_ymin r),
          r_ymax = (if pt_y p > r_ymax r then pt_y p else r_ymax r),
          r_smin = (if s < r_smin r then s else r_smin r),
          r_smax = (if s > r_smax r then s else r_smax r)\<rparr>)"

definition findRanges :: "Point list \<Rightarrow> Ranges option" where
  "findRanges ps = fold scanPoint ps None"

text \<open>The padding fraction, \<open>const padding = 0.05\<close>.\<close>

definition padding :: real where
  "padding = 0.05"

text \<open>
  \<open>xmin -= dx * padding; xmax += dx * padding; ymin -= dy * padding; ymax += dy * padding\<close>
  with \<open>dx = xmax - xmin || 1\<close> and \<open>dy = ymax - ymin || 1\<close>: the bounds the points are
  placed with.
\<close>

definition rangeDx :: "Ranges \<Rightarrow> real" where
  "rangeDx r = jsOr (r_xmax r - r_xmin r) 1"

definition rangeDy :: "Ranges \<Rightarrow> real" where
  "rangeDy r = jsOr (r_ymax r - r_ymin r) 1"

definition rangeDs :: "Ranges \<Rightarrow> real" where
  "rangeDs r = jsOr (r_smax r - r_smin r) 1"

definition paddedBounds :: "Ranges \<Rightarrow> Bounds" where
  "paddedBounds r =
     \<lparr>b_xmin = r_xmin r - rangeDx r * padding,
      b_xmax = r_xmax r + rangeDx r * padding,
      b_ymin = r_ymin r - rangeDy r * padding,
      b_ymax = r_ymax r + rangeDy r * padding\<rparr>"

text \<open>
  The body of the placement loop up to \<open>paddedUx, paddedUy\<close>: normalise with the padded
  bounds, clamp to the unit interval, move into the inner 70% of the cell. This is the
  exact reading, in which the divisor is never zero for the bounds of a panel with
  points; \<open>renderSpaceF\<close> below is the same body with rounding, where a division
  \<open>0/0\<close> gives \<open>NaN\<close> and \<open>Math.max\<close> and \<open>Math.min\<close> pass it on.
\<close>

definition renderSpace :: "Bounds \<Rightarrow> Point \<Rightarrow> real \<times> real" where
  "renderSpace b p =
     (let ux = (pt_x p - b_xmin b) / (b_xmax b - b_xmin b);
          uy = (pt_y p - b_ymin b) / (b_ymax b - b_ymin b);
          ux' = max 0 (min 1 ux);
          uy' = max 0 (min 1 uy)
      in (0.15 + ux' * 0.7, 0.15 + uy' * 0.7))"

text \<open>\<open>pos[2*i] = paddedUx * 2 - 1; pos[2*i+1] = (1 - paddedUy) * 2 - 1\<close>.\<close>

definition clipSpace :: "real \<times> real \<Rightarrow> real \<times> real" where
  "clipSpace u = (fst u * 2 - 1, (1 - snd u) * 2 - 1)"

definition pointSize :: "real \<times> real \<Rightarrow> Ranges \<Rightarrow> Point \<Rightarrow> real" where
  "pointSize psr r p =
     (let us = (nullish (pt_size p) 1 - r_smin r) / rangeDs r
      in fst psr + us * (snd psr - fst psr))"

text \<open>\<open>p.color ?? c.color ?? defaultColor\<close>.\<close>

definition pointColor :: "rgb \<Rightarrow> ChartData \<Rightarrow> Point \<Rightarrow> rgb" where
  "pointColor dc c p =
     (case pt_color p of
        Some k \<Rightarrow> k
      | None \<Rightarrow> (case c_color c of Some k \<Rightarrow> k | None \<Rightarrow> dc))"

definition emptyPrepared :: "string \<Rightarrow> Prepared" where
  "emptyPrepared i =
     \<lparr>prep_id = i, prep_pos = [], prep_size = [], prep_color = [], prep_count = 0,
      prep_xmin = 0, prep_xmax = 1, prep_ymin = 0, prep_ymax = 1\<rparr>"

text \<open>
  One element of \<open>charts.map(...)\<close>. The branch \<open>None\<close> of the scan is the state in which
  the bounds are still infinite; it is reached for no non-empty list
  (lemma \<open>findRanges_nonempty\<close>), and the source has no code for it. In this exact
  reading adding the padding back cancels, so the stored bounds are the raw ones; with
  rounding it need not cancel (\<open>prepareF\<close> below).
\<close>

definition prepare :: "real \<times> real \<Rightarrow> rgb \<Rightarrow> ChartData \<Rightarrow> Prepared" where
  "prepare psr dc c =
     (if length (c_points c) = 0 then emptyPrepared (c_id c)
      else case findRanges (c_points c) of
        None \<Rightarrow> emptyPrepared (c_id c)
      | Some r \<Rightarrow>
          (let dx = rangeDx r;
               dy = rangeDy r;
               b = paddedBounds r;
               n = length (c_points c)
           in \<lparr>prep_id = c_id c,
               prep_pos = concat (map (\<lambda>p. [fst (clipSpace (renderSpace b p)),
                                              snd (clipSpace (renderSpace b p))]) (c_points c)),
               prep_size = map (pointSize psr r) (c_points c),
               prep_color = concat (map (\<lambda>p. case pointColor dc c p of
                                                (cr, cg, cb) \<Rightarrow> [cr, cg, cb]) (c_points c)),
               prep_count = n,
               prep_xmin = b_xmin b + dx * padding,
               prep_xmax = b_xmax b - dx * padding,
               prep_ymin = b_ymin b + dy * padding,
               prep_ymax = b_ymax b - dy * padding\<rparr>))"

definition prepared :: "Props \<Rightarrow> Prepared list" where
  "prepared props = map (prepare (pointSizeRange props) (defaultColor props)) (charts props)"

section \<open>Grid layout\<close>

text \<open>
  \<open>rows = Math.ceil(prepared.length / columns)\<close>. For \<open>columns = 0\<close> the source
  divides by zero and gets \<open>Infinity\<close> or \<open>NaN\<close>, which are not reals; the theorems
  that depend on the value of a quotient assume its divisor is not zero.
\<close>

definition rows :: "Props \<Rightarrow> int" where
  "rows props = \<lceil>real (length (prepared props)) / real (columns props)\<rceil>"

text \<open>
  \<open>rows * cellHeight + Math.max(0, rows - 1) * cellGap + 40\<close>, the formula of both
  \<open>heightPx\<close> and \<open>requiredHeight\<close>.
\<close>

definition heightOfRows :: "int \<Rightarrow> real \<Rightarrow> real \<Rightarrow> real" where
  "heightOfRows rs cellH gap =
     real_of_int rs * cellH + real_of_int (max 0 (rs - 1)) * gap + 40"

definition heightPx :: "Props \<Rightarrow> real" where
  "heightPx props = heightOfRows (rows props) (cellHeight props) (cellGap props)"

text \<open>\<open>cellW = (width - (cols - 1) * gap) / cols\<close>, in \<open>render\<close> and in the pointer handler.\<close>

definition cellWidth :: "real \<Rightarrow> nat \<Rightarrow> real \<Rightarrow> real" where
  "cellWidth w cols gap = (w - (real cols - 1) * gap) / real cols"

section \<open>The tiled renderer\<close>

record Viewport =
  vp_x :: int
  vp_y :: real
  vp_width :: int
  vp_height :: int

text \<open>
  One call of \<open>drawPoints\<close>: the buffers of panel \<open>i\<close> (named by their index in
  \<open>buffers\<close>), their count, the viewport and the scissor box.
\<close>

record DrawCall =
  dc_buffers :: nat
  dc_count :: nat
  dc_viewport :: Viewport
  dc_scissor :: Viewport

text \<open>What one run of \<open>render\<close> leaves behind: the canvas size and the draw calls, in order.\<close>

record Frame =
  fr_width :: int
  fr_height :: int
  fr_styleHeight :: real
  fr_draws :: "DrawCall list"

text \<open>The body of the loop over \<open>buffers\<close>, for index \<open>i\<close>.\<close>

definition drawCell :: "Prepared list \<Rightarrow> nat \<Rightarrow> real \<Rightarrow> real \<Rightarrow> real \<Rightarrow> real \<Rightarrow> nat \<Rightarrow> DrawCall list" where
  "drawCell preps cols cellW cellH gap cssHeight i =
     (let col = i mod cols;
          row = \<lfloor>real i / real cols\<rfloor>;
          x = \<lfloor>real col * (cellW + gap)\<rfloor>;
          y = \<lfloor>real_of_int row * (cellH + gap)\<rfloor>;
          w = \<lfloor>cellW\<rfloor>;
          h = \<lfloor>cellH\<rfloor>;
          viewportY = \<lfloor>cssHeight - real_of_int (y + h)\<rfloor>;
          safeViewportY = max 0 (min (real_of_int viewportY) (cssHeight - real_of_int h));
          safeY = max 0 (min (real_of_int y) (cssHeight - real_of_int h));
          box = \<lparr>vp_x = x, vp_y = safeViewportY, vp_width = w, vp_height = h\<rparr>
      in if safeViewportY \<ge> 0 \<and> safeY < cssHeight \<and> prep_count (preps ! i) > 0
         then [\<lparr>dc_buffers = i, dc_count = prep_count (preps ! i),
                 dc_viewport = box, dc_scissor = box\<rparr>]
         else [])"

text \<open>
  \<open>render\<close>, given \<open>window.devicePixelRatio\<close> and the canvas's \<open>clientWidth\<close> and
  \<open>clientHeight\<close>.
\<close>

definition render :: "Props \<Rightarrow> real \<Rightarrow> real \<Rightarrow> real \<Rightarrow> Frame" where
  "render props devicePixelRatio clientWidth clientHeight =
     (let preps = prepared props;
          dpr = jsOr devicePixelRatio 1;
          cssWidth = jsOr clientWidth 1;
          cols = columns props;
          rws = \<lceil>real (length preps) / real cols\<rceil>;
          requiredHeight = heightOfRows rws (cellHeight props) (cellGap props);
          cssHeight = max (jsOr clientHeight 1) requiredHeight;
          gap = cellGap props;
          cellW = cellWidth cssWidth cols gap;
          cellH = cellHeight props
      in \<lparr>fr_width = max 1 \<lfloor>cssWidth * dpr\<rfloor>,
          fr_height = max 1 \<lfloor>cssHeight * dpr\<rfloor>,
          fr_styleHeight = cssHeight,
          fr_draws = concat (map (drawCell preps cols cellW cellH gap cssHeight)
                                 [0 ..< length preps])\<rparr>)"

section \<open>Hit-testing: \<open>handleMouseMove\<close>\<close>

text \<open>\<open>canvas.getBoundingClientRect()\<close> and the mouse event, as far as the handler reads them.\<close>

record Rect =
  rect_left :: real
  rect_top :: real
  rect_width :: real

record MouseEvent =
  clientX :: real
  clientY :: real

record TooltipEntry =
  te_price :: real
  te_time :: real
  te_size :: real
  te_side :: string

record Tooltip =
  tt_visible :: bool
  tt_x :: real
  tt_y :: real
  tt_data :: "TooltipEntry list"

definition mouseX :: "Rect \<Rightarrow> MouseEvent \<Rightarrow> real" where
  "mouseX rect event = clientX event - rect_left rect"

definition mouseY :: "Rect \<Rightarrow> MouseEvent \<Rightarrow> real" where
  "mouseY rect event = clientY event - rect_top rect"

text \<open>\<open>col = Math.floor(mouseX / (cellW + gap))\<close> and \<open>row = Math.floor(mouseY / (cellH + gap))\<close>.\<close>

definition hitCol :: "Props \<Rightarrow> Rect \<Rightarrow> MouseEvent \<Rightarrow> int" where
  "hitCol props rect event =
     \<lfloor>mouseX rect event /
       (cellWidth (rect_width rect) (columns props) (cellGap props) + cellGap props)\<rfloor>"

definition hitRow :: "Props \<Rightarrow> Rect \<Rightarrow> MouseEvent \<Rightarrow> int" where
  "hitRow props rect event = \<lfloor>mouseY rect event / (cellHeight props + cellGap props)\<rfloor>"

text \<open>\<open>chartIndex = row * cols + col\<close>.\<close>

definition chartIndex :: "Props \<Rightarrow> Rect \<Rightarrow> MouseEvent \<Rightarrow> int" where
  "chartIndex props rect event =
     hitRow props rect event * int (columns props) + hitCol props rect event"

definition localX :: "Props \<Rightarrow> Rect \<Rightarrow> MouseEvent \<Rightarrow> real" where
  "localX props rect event =
     mouseX rect event - real_of_int (hitCol props rect event) *
       (cellWidth (rect_width rect) (columns props) (cellGap props) + cellGap props)"

definition localY :: "Props \<Rightarrow> Rect \<Rightarrow> MouseEvent \<Rightarrow> real" where
  "localY props rect event =
     mouseY rect event - real_of_int (hitRow props rect event) *
       (cellHeight props + cellGap props)"

text \<open>\<open>Math.max(0, Math.min(1, (u - 0.15) / 0.7))\<close>, for \<open>u\<close> one of \<open>normX\<close>, \<open>normY\<close>.\<close>

definition unpadded :: "real \<Rightarrow> real" where
  "unpadded u = max 0 (min 1 ((u - 0.15) / 0.7))"

text \<open>The cursor in data coordinates, from the bounds stored on the prepared panel.\<close>

definition cursorTime :: "Prepared \<Rightarrow> real \<Rightarrow> real" where
  "cursorTime prep unpaddedX = prep_xmin prep + unpaddedX * (prep_xmax prep - prep_xmin prep)"

definition cursorPrice :: "Prepared \<Rightarrow> real \<Rightarrow> real" where
  "cursorPrice prep unpaddedY = prep_ymax prep - unpaddedY * (prep_ymax prep - prep_ymin prep)"

text \<open>The filter over \<open>chart.points\<close>, with the thresholds of 2% of the stored range.\<close>

definition nearbyPoints :: "ChartData \<Rightarrow> Prepared \<Rightarrow> real \<Rightarrow> real \<Rightarrow> Point list" where
  "nearbyPoints chart prep cTime cPrice =
     (let timeThreshold = (prep_xmax prep - prep_xmin prep) * 0.02;
          priceThreshold = (prep_ymax prep - prep_ymin prep) * 0.02
      in filter (\<lambda>point. \<bar>pt_x point - cTime\<bar> < timeThreshold \<and>
                         \<bar>pt_y point - cPrice\<bar> < priceThreshold) (c_points chart))"

text \<open>
  \<open>isUpTrade = p.color && p.color[0] > p.color[1]\<close>: an array is truthy, so the value is
  truthy exactly when the colour is there and its red exceeds its green.
\<close>

definition isUpTrade :: "Point \<Rightarrow> bool" where
  "isUpTrade p = (case pt_color p of None \<Rightarrow> False | Some (cr, cg, cb) \<Rightarrow> cr > cg)"

text \<open>One entry of \<open>pointsData\<close>; \<open>p.size || 1\<close> is 1 for an absent and for a zero size.\<close>

definition pointData :: "Point \<Rightarrow> TooltipEntry" where
  "pointData p =
     \<lparr>te_price = pt_y p,
      te_time = pt_x p,
      te_size = (case pt_size p of None \<Rightarrow> 1 | Some s \<Rightarrow> jsOr s 1),
      te_side = (if isUpTrade p then ''Up'' else ''Down'')\<rparr>"

text \<open>
  The handler, with the canvas mounted. The result is the argument of \<open>setTooltip\<close>:
  \<open>None\<close> for \<open>setTooltip(null)\<close>.
\<close>

definition handleMouseMove :: "Props \<Rightarrow> Rect \<Rightarrow> MouseEvent \<Rightarrow> Tooltip option" where
  "handleMouseMove props rect event =
     (let cellW = cellWidth (rect_width rect) (columns props) (cellGap props);
          cellH = cellHeight props;
          idx = chartIndex props rect event
      in if idx \<ge> 0 \<and> idx < int (length (charts props)) then
           (let chart = charts props ! nat idx;
                prep = prepared props ! nat idx;
                lx = localX props rect event;
                ly = localY props rect event
            in if lx \<ge> 0 \<and> lx \<le> cellW \<and> ly \<ge> 0 \<and> ly \<le> cellH then
                 (let normX = lx / cellW;
                      normY = ly / cellH;
                      near = nearbyPoints chart prep (cursorTime prep (unpadded normX))
                               (cursorPrice prep (unpadded normY))
                  in if length near > 0
                     then Some \<lparr>tt_visible = True, tt_x = clientX event, tt_y = clientY event,
                                 tt_data = map pointData near\<rparr>
                     else None)
               else None)
         else None)"

section \<open>Concrete panels\<close>

text \<open>Panel A of the scenario: the points \<open>(t=0, p=0.10)\<close> and \<open>(t=10, p=0.20)\<close>.\<close>

definition pointA0 :: Point where
  "pointA0 = \<lparr>pt_x = 0, pt_y = 0.10, pt_size = None, pt_color = None\<rparr>"

definition pointA1 :: Point where
  "pointA1 = \<lparr>pt_x = 10, pt_y = 0.20, pt_size = None, pt_color = None\<rparr>"

definition panelA :: ChartData where
  "panelA = \<lparr>c_id = ''A'', c_title = ''Panel A'', c_side = ''Up'',
             c_points = [pointA0, pointA1], c_color = None\<rparr>"

definition rangesA :: Ranges where
  "rangesA = \<lparr>r_xmin = 0, r_xmax = 10, r_ymin = 0.10, r_ymax = 0.20, r_smin = 1, r_smax = 1\<rparr>"

text \<open>A panel with a single point, \<open>(t=0, p=0)\<close>, and a panel with none.\<close>

definition pointS :: Point where
  "pointS = \<lparr>pt_x = 0, pt_y = 0, pt_size = None, pt_color = None\<rparr>"

definition panelS :: ChartData where
  "panelS = \<lparr>c_id = ''S'', c_title = ''Single'', c_side = ''Up'',
             c_points = [pointS], c_color = None\<rparr>"

definition rangesS :: Ranges where
  "rangesS = \<lparr>r_xmin = 0, r_xmax = 0, r_ymin = 0, r_ymax = 0, r_smin = 1, r_smax = 1\<rparr>"

definition panelE :: ChartData where
  "panelE = \<lparr>c_id = ''E'', c_title = ''Empty'', c_side = ''Up'', c_points = [], c_color = None\<rparr>"

text \<open>
  A panel as \<open>toCharts\<close> builds them: an up trade in red and a down trade in green.
\<close>

definition pointU :: Point where
  "pointU = \<lparr>pt_x = 0, pt_y = 0.10, pt_size = Some 3, pt_color = Some (0.9, 0.2, 0.2)\<rparr>"

definition pointD :: Point where
  "pointD = \<lparr>pt_x = 10, pt_y = 0.20, pt_size = None, pt_color = Some (0.2, 0.8, 0.2)\<rparr>"

definition panelC :: ChartData where
  "panelC = \<lparr>c_id = ''C'', c_title = ''Coloured'', c_side = ''Up'',
             c_points = [pointU, pointD], c_color = Some (0.35, 0.52, 0.92)\<rparr>"

definition rangesC :: Ranges where
  "rangesC = \<lparr>r_xmin = 0, r_xmax = 10, r_ymin = 0.10, r_ymax = 0.20, r_smin = 1, r_smax = 3\<rparr>"

text \<open>A canvas 1300 pixels wide at the origin: six cells of width 200 with gaps of 20.\<close>

definition rect0 :: Rect where
  "rect0 = \<lparr>rect_left = 0, rect_top = 0, rect_width = 1300\<rparr>"

text \<open>The props of the source's defaults over a list of panels.\<close>

definition defaultProps :: "ChartData list \<Rightarrow> Props" where
  "defaultProps cs =
     \<lparr>charts = cs, columns = 6, cellHeight = 280, cellGap = 20,
      pointSizeRange = (2, 12), defaultColor = (0.35, 0.52, 0.92)\<rparr>"

section \<open>JavaScript numbers with rounding\<close>

text \<open>
  The definitions above read the arithmetic of the source as exact. The code computes
  in IEEE 754 double precision, where every operation rounds its result, a result too
  large becomes an infinity, and \<open>0/0\<close> or \<open>Infinity - Infinity\<close> is \<open>NaN\<close>. The
  normaliser is therefore modelled a second time over numbers with these values, with
  the number format as a parameter: \<open>exact\<close> is the reading above, \<open>binary64\<close> the
  arithmetic of the code and \<open>binary32\<close> the format of a \<open>Float32Array\<close>.
\<close>

datatype num = Fin real | PInf | NInf | NaN

text \<open>
  A format: the rounding of a real to the nearest number of the format, with the
  exponent unbounded above, and the largest finite number, if there is one.
\<close>

record Format =
  rnd :: "real \<Rightarrow> real"
  maxnum :: "real option"

text \<open>The value of an operation whose exact result is \<open>x\<close>.\<close>

definition fl :: "Format \<Rightarrow> real \<Rightarrow> num" where
  "fl F x =
     (let y = rnd F x in
      case maxnum F of
        None \<Rightarrow> Fin y
      | Some h \<Rightarrow> if h < y then PInf else if y < - h then NInf else Fin y)"

text \<open>Whether a rounded value is within the finite range of the format.\<close>

definition inRange :: "Format \<Rightarrow> real \<Rightarrow> bool" where
  "inRange F y = (case maxnum F of None \<Rightarrow> True | Some h \<Rightarrow> - h \<le> y \<and> y \<le> h)"

text \<open>A real that is a finite number of the format.\<close>

definition representable :: "Format \<Rightarrow> real \<Rightarrow> bool" where
  "representable F v = (fl F v = Fin v)"

text \<open>
  What the theorems below use of a format: rounding is monotone, leaves the numbers
  of the format as they are, and rounds zero to zero. Rounding to nearest in IEEE 754
  has these properties (lemma \<open>valid_binary64\<close> for the arithmetic of the code).
\<close>

definition valid :: "Format \<Rightarrow> bool" where
  "valid F =
     (mono (rnd F) \<and> (\<forall>x. rnd F (rnd F x) = rnd F x) \<and> rnd F 0 = 0 \<and>
      inRange F 0)"

definition exact :: Format where
  "exact = \<lparr>rnd = (\<lambda>x. x), maxnum = None\<rparr>"

text \<open>Rounding to the nearest integer, ties to even.\<close>

definition rne :: "real \<Rightarrow> int" where
  "rne t =
     (let f = \<lfloor>t\<rfloor> in
      if t - real_of_int f < 1 / 2 then f
      else if 1 / 2 < t - real_of_int f then f + 1
      else if even f then f else f + 1)"

text \<open>
  Rounding to \<open>p\<close> significant bits with least exponent \<open>emin\<close> (below it the spacing
  stays that of the least exponent: gradual underflow).
\<close>

definition expoIEEE :: "int \<Rightarrow> real \<Rightarrow> int" where
  "expoIEEE emin x = max \<lfloor>log 2 \<bar>x\<bar>\<rfloor> emin"

definition ulpIEEE :: "nat \<Rightarrow> int \<Rightarrow> real \<Rightarrow> real" where
  "ulpIEEE p emin x = 2 powr (real_of_int (expoIEEE emin x) - (real p - 1))"

definition rndIEEE :: "nat \<Rightarrow> int \<Rightarrow> real \<Rightarrow> real" where
  "rndIEEE p emin x =
     (if x = 0 then 0 else real_of_int (rne (x / ulpIEEE p emin x)) * ulpIEEE p emin x)"

definition binary64 :: Format where
  "binary64 = \<lparr>rnd = rndIEEE 53 (- 1022), maxnum = Some (2 ^ 1024 - 2 ^ 971)\<rparr>"

definition binary32 :: Format where
  "binary32 = \<lparr>rnd = rndIEEE 24 (- 126), maxnum = Some (2 ^ 128 - 2 ^ 104)\<rparr>"

text \<open>The number of \<open>binary64\<close> nearest to the literal \<open>0.05\<close> (lemma \<open>r64_lit\<close>).\<close>

definition lit005 :: real where
  "lit005 = 7205759403792794 / 2 ^ 57"

text \<open>
  The operations of JavaScript on numbers. A zero is taken as positive where its sign
  decides the sign of an infinity.
\<close>

fun neg :: "num \<Rightarrow> num" where
  "neg (Fin a) = Fin (- a)"
| "neg PInf = NInf"
| "neg NInf = PInf"
| "neg NaN = NaN"

fun add :: "Format \<Rightarrow> num \<Rightarrow> num \<Rightarrow> num" where
  "add F (Fin a) (Fin b) = fl F (a + b)"
| "add F NaN b = NaN"
| "add F a NaN = NaN"
| "add F PInf NInf = NaN"
| "add F NInf PInf = NaN"
| "add F PInf b = PInf"
| "add F a PInf = PInf"
| "add F NInf b = NInf"
| "add F a NInf = NInf"

definition sub :: "Format \<Rightarrow> num \<Rightarrow> num \<Rightarrow> num" where
  "sub F a b = add F a (neg b)"

text \<open>The product of an infinity and a finite number of the given sign.\<close>

definition infTimes :: "bool \<Rightarrow> real \<Rightarrow> num" where
  "infTimes positive a =
     (if a = 0 then NaN else if (0 < a) = positive then PInf else NInf)"

fun mul :: "Format \<Rightarrow> num \<Rightarrow> num \<Rightarrow> num" where
  "mul F (Fin a) (Fin b) = fl F (a * b)"
| "mul F NaN b = NaN"
| "mul F a NaN = NaN"
| "mul F (Fin a) PInf = infTimes True a"
| "mul F (Fin a) NInf = infTimes False a"
| "mul F PInf (Fin b) = infTimes True b"
| "mul F NInf (Fin b) = infTimes False b"
| "mul F PInf PInf = PInf"
| "mul F NInf NInf = PInf"
| "mul F PInf NInf = NInf"
| "mul F NInf PInf = NInf"

fun quot :: "Format \<Rightarrow> num \<Rightarrow> num \<Rightarrow> num" where
  "quot F (Fin a) (Fin b) =
     (if b = 0 then (if a = 0 then NaN else if 0 < a then PInf else NInf)
      else fl F (a / b))"
| "quot F NaN b = NaN"
| "quot F a NaN = NaN"
| "quot F (Fin a) PInf = Fin 0"
| "quot F (Fin a) NInf = Fin 0"
| "quot F PInf (Fin b) = (if 0 \<le> b then PInf else NInf)"
| "quot F NInf (Fin b) = (if 0 \<le> b then NInf else PInf)"
| "quot F PInf PInf = NaN"
| "quot F PInf NInf = NaN"
| "quot F NInf PInf = NaN"
| "quot F NInf NInf = NaN"

text \<open>\<open>Math.max\<close> and \<open>Math.min\<close>: \<open>NaN\<close> as soon as one argument is \<open>NaN\<close>.\<close>

fun jsmax :: "num \<Rightarrow> num \<Rightarrow> num" where
  "jsmax NaN b = NaN"
| "jsmax a NaN = NaN"
| "jsmax PInf b = PInf"
| "jsmax a PInf = PInf"
| "jsmax NInf b = b"
| "jsmax a NInf = a"
| "jsmax (Fin a) (Fin b) = Fin (max a b)"

fun jsmin :: "num \<Rightarrow> num \<Rightarrow> num" where
  "jsmin NaN b = NaN"
| "jsmin a NaN = NaN"
| "jsmin NInf b = NInf"
| "jsmin a NInf = NInf"
| "jsmin PInf b = b"
| "jsmin a PInf = a"
| "jsmin (Fin a) (Fin b) = Fin (min a b)"

text \<open>\<open>a || b\<close>: zero and \<open>NaN\<close> are falsy.\<close>

fun jsOrN :: "num \<Rightarrow> num \<Rightarrow> num" where
  "jsOrN (Fin a) b = (if a = 0 then b else Fin a)"
| "jsOrN NaN b = b"
| "jsOrN PInf b = PInf"
| "jsOrN NInf b = NInf"

text \<open>A value written into a typed array of format \<open>S\<close>.\<close>

fun store :: "Format \<Rightarrow> num \<Rightarrow> num" where
  "store S (Fin a) = fl S a"
| "store S PInf = PInf"
| "store S NInf = NInf"
| "store S NaN = NaN"

section \<open>The normaliser with rounding\<close>

text \<open>
  The coordinates and sizes of the points are numbers of the format already (they are
  the values of JavaScript numbers), so the comparisons of the range scan are as in
  \<open>findRanges\<close>; a decimal literal of the source is the number of the format nearest
  to it.
\<close>

record BoundsF =
  bF_xmin :: num
  bF_xmax :: num
  bF_ymin :: num
  bF_ymax :: num

record PreparedF =
  pF_id :: string
  pF_pos :: "num list"
  pF_size :: "num list"
  pF_color :: "num list"
  pF_count :: nat
  pF_xmin :: num
  pF_xmax :: num
  pF_ymin :: num
  pF_ymax :: num

definition rangeDxF :: "Format \<Rightarrow> Ranges \<Rightarrow> num" where
  "rangeDxF F r = jsOrN (sub F (Fin (r_xmax r)) (Fin (r_xmin r))) (Fin 1)"

definition rangeDyF :: "Format \<Rightarrow> Ranges \<Rightarrow> num" where
  "rangeDyF F r = jsOrN (sub F (Fin (r_ymax r)) (Fin (r_ymin r))) (Fin 1)"

definition rangeDsF :: "Format \<Rightarrow> Ranges \<Rightarrow> num" where
  "rangeDsF F r = jsOrN (sub F (Fin (r_smax r)) (Fin (r_smin r))) (Fin 1)"

text \<open>\<open>dx * padding\<close> and \<open>dy * padding\<close>, with \<open>padding\<close> the literal \<open>0.05\<close>.\<close>

definition padXF :: "Format \<Rightarrow> Ranges \<Rightarrow> num" where
  "padXF F r = mul F (rangeDxF F r) (fl F 0.05)"

definition padYF :: "Format \<Rightarrow> Ranges \<Rightarrow> num" where
  "padYF F r = mul F (rangeDyF F r) (fl F 0.05)"

definition paddedBoundsF :: "Format \<Rightarrow> Ranges \<Rightarrow> BoundsF" where
  "paddedBoundsF F r =
     \<lparr>bF_xmin = sub F (Fin (r_xmin r)) (padXF F r),
      bF_xmax = add F (Fin (r_xmax r)) (padXF F r),
      bF_ymin = sub F (Fin (r_ymin r)) (padYF F r),
      bF_ymax = add F (Fin (r_ymax r)) (padYF F r)\<rparr>"

definition renderSpaceF :: "Format \<Rightarrow> BoundsF \<Rightarrow> Point \<Rightarrow> num \<times> num" where
  "renderSpaceF F b p =
     (let ux = quot F (sub F (Fin (pt_x p)) (bF_xmin b)) (sub F (bF_xmax b) (bF_xmin b));
          uy = quot F (sub F (Fin (pt_y p)) (bF_ymin b)) (sub F (bF_ymax b) (bF_ymin b));
          ux' = jsmax (Fin 0) (jsmin (Fin 1) ux);
          uy' = jsmax (Fin 0) (jsmin (Fin 1) uy)
      in (add F (fl F 0.15) (mul F ux' (fl F 0.7)),
          add F (fl F 0.15) (mul F uy' (fl F 0.7))))"

definition clipSpaceF :: "Format \<Rightarrow> num \<times> num \<Rightarrow> num \<times> num" where
  "clipSpaceF F u =
     (sub F (mul F (fst u) (Fin 2)) (Fin 1),
      sub F (mul F (sub F (Fin 1) (snd u)) (Fin 2)) (Fin 1))"

definition pointSizeF :: "Format \<Rightarrow> real \<times> real \<Rightarrow> Ranges \<Rightarrow> Point \<Rightarrow> num" where
  "pointSizeF F psr r p =
     (let us = quot F (sub F (Fin (nullish (pt_size p) 1)) (Fin (r_smin r))) (rangeDsF F r)
      in add F (Fin (fst psr)) (mul F us (sub F (Fin (snd psr)) (Fin (fst psr)))))"

definition emptyPreparedF :: "string \<Rightarrow> PreparedF" where
  "emptyPreparedF i =
     \<lparr>pF_id = i, pF_pos = [], pF_size = [], pF_color = [], pF_count = 0,
      pF_xmin = Fin 0, pF_xmax = Fin 1, pF_ymin = Fin 0, pF_ymax = Fin 1\<rparr>"

text \<open>
  One element of \<open>charts.map(...)\<close> in the arithmetic \<open>F\<close>, the three buffers being
  typed arrays of format \<open>S\<close>.
\<close>

definition prepareF :: "Format \<Rightarrow> Format \<Rightarrow> real \<times> real \<Rightarrow> rgb \<Rightarrow> ChartData \<Rightarrow> PreparedF" where
  "prepareF F S psr dc c =
     (if length (c_points c) = 0 then emptyPreparedF (c_id c)
      else case findRanges (c_points c) of
        None \<Rightarrow> emptyPreparedF (c_id c)
      | Some r \<Rightarrow>
          (let b = paddedBoundsF F r;
               n = length (c_points c)
           in \<lparr>pF_id = c_id c,
               pF_pos = concat (map (\<lambda>p. [store S (fst (clipSpaceF F (renderSpaceF F b p))),
                                            store S (snd (clipSpaceF F (renderSpaceF F b p)))])
                                   (c_points c)),
               pF_size = map (\<lambda>p. store S (pointSizeF F psr r p)) (c_points c),
               pF_color = concat (map (\<lambda>p. case pointColor dc c p of
                                              (cr, cg, cb) \<Rightarrow> [fl S cr, fl S cg, fl S cb])
                                     (c_points c)),
               pF_count = n,
               pF_xmin = add F (bF_xmin b) (padXF F r),
               pF_xmax = sub F (bF_xmax b) (padXF F r),
               pF_ymin = add F (bF_ymin b) (padYF F r),
               pF_ymax = sub F (bF_ymax b) (padYF F r)\<rparr>))"

text \<open>
  Panels whose coordinates are numbers of \<open>binary64\<close>: a single point with a large
  time, \<open>(t = 1.7e15, p = 0.5)\<close>; the single point \<open>(t = 2, p = 2)\<close>; and the two
  points \<open>(t = 0, p = 0.25)\<close> and \<open>(t = 10, p = 0.5)\<close>.
\<close>

definition pointN :: Point where
  "pointN = \<lparr>pt_x = 1700000000000000, pt_y = 0.5, pt_size = None, pt_color = None\<rparr>"

definition panelN :: ChartData where
  "panelN = \<lparr>c_id = ''N'', c_title = ''Large time'', c_side = ''Up'',
             c_points = [pointN], c_color = None\<rparr>"

definition rangesN :: Ranges where
  "rangesN = \<lparr>r_xmin = 1700000000000000, r_xmax = 1700000000000000,
              r_ymin = 0.5, r_ymax = 0.5, r_smin = 1, r_smax = 1\<rparr>"




definition pointQ0 :: Point where
  "pointQ0 = \<lparr>pt_x = 0, pt_y = 0.25, pt_size = None, pt_color = None\<rparr>"

definition pointQ1 :: Point where
  "pointQ1 = \<lparr>pt_x = 10, pt_y = 0.5, pt_size = None, pt_color = None\<rparr>"

definition panelQ :: ChartData where
  "panelQ = \<lparr>c_id = ''Q'', c_title = ''Quarter'', c_side = ''Up'',
             c_points = [pointQ0, pointQ1], c_color = None\<rparr>"

definition rangesQ :: Ranges where
  "rangesQ = \<lparr>r_xmin = 0, r_xmax = 10, r_ymin = 0.25, r_ymax = 0.5, r_smin = 1, r_smax = 1\<rparr>"

section \<open>Facts about the range scan\<close>

lemma if_less_min: "(if a < b then a else b) = min a (b::real)"
  by (simp add: min_def)

lemma if_greater_max: "(if a > b then a else b) = max a (b::real)"
  by (simp add: max_def)

lemma scanPoint_None:
  "scanPoint p None =
     Some \<lparr>r_xmin = pt_x p, r_xmax = pt_x p, r_ymin = pt_y p, r_ymax = pt_y p,
           r_smin = nullish (pt_size p) 1, r_smax = nullish (pt_size p) 1\<rparr>"
  by (simp add: scanPoint_def Let_def)

lemma scanPoint_Some:
  "scanPoint p (Some r) =
     Some \<lparr>r_xmin = min (pt_x p) (r_xmin r), r_xmax = max (pt_x p) (r_xmax r),
           r_ymin = min (pt_y p) (r_ymin r), r_ymax = max (pt_y p) (r_ymax r),
           r_smin = min (nullish (pt_size p) 1) (r_smin r),
           r_smax = max (nullish (pt_size p) 1) (r_smax r)\<rparr>"
  by (simp only: scanPoint_def Let_def if_less_min if_greater_max option.case)

lemma Min_insert_min: "finite A \<Longrightarrow> Min (insert (min a b) A) = Min (insert b (insert a A))"
  for a b :: real
  by (cases "A = {}") (simp_all add: min.assoc min.commute)

lemma Max_insert_max: "finite A \<Longrightarrow> Max (insert (max a b) A) = Max (insert b (insert a A))"
  for a b :: real
  by (cases "A = {}") (simp_all add: max.assoc max.commute)

lemma fold_scanPoint_Some:
  "\<exists>r'. fold scanPoint ps (Some r) = Some r' \<and>
        r_xmin r' = Min (insert (r_xmin r) (pt_x ` set ps)) \<and>
        r_xmax r' = Max (insert (r_xmax r) (pt_x ` set ps)) \<and>
        r_ymin r' = Min (insert (r_ymin r) (pt_y ` set ps)) \<and>
        r_ymax r' = Max (insert (r_ymax r) (pt_y ` set ps))"
proof (induction ps arbitrary: r)
  case Nil
  show ?case by simp
next
  case (Cons p ps)
  let ?r1 = "\<lparr>r_xmin = min (pt_x p) (r_xmin r), r_xmax = max (pt_x p) (r_xmax r),
           r_ymin = min (pt_y p) (r_ymin r), r_ymax = max (pt_y p) (r_ymax r),
           r_smin = min (nullish (pt_size p) 1) (r_smin r),
           r_smax = max (nullish (pt_size p) 1) (r_smax r)\<rparr>"
  from Cons.IH [of ?r1] obtain r' where
    f: "fold scanPoint ps (Some ?r1) = Some r'" and
    a: "r_xmin r' = Min (insert (r_xmin ?r1) (pt_x ` set ps))" and
    b: "r_xmax r' = Max (insert (r_xmax ?r1) (pt_x ` set ps))" and
    c: "r_ymin r' = Min (insert (r_ymin ?r1) (pt_y ` set ps))" and
    d: "r_ymax r' = Max (insert (r_ymax ?r1) (pt_y ` set ps))"
    by blast
  have f': "fold scanPoint (p # ps) (Some r) = Some r'"
    using f by (simp only: fold_Cons o_apply scanPoint_Some)
  have a': "r_xmin r' = Min (insert (r_xmin r) (pt_x ` set (p # ps)))"
    using a by (simp add: Min_insert_min)
  have b': "r_xmax r' = Max (insert (r_xmax r) (pt_x ` set (p # ps)))"
    using b by (simp add: Max_insert_max)
  have c': "r_ymin r' = Min (insert (r_ymin r) (pt_y ` set (p # ps)))"
    using c by (simp add: Min_insert_min)
  have d': "r_ymax r' = Max (insert (r_ymax r) (pt_y ` set (p # ps)))"
    using d by (simp add: Max_insert_max)
  from f' a' b' c' d' show ?case by blast
qed

lemma findRanges_Cons:
  "\<exists>r. findRanges (p # ps) = Some r \<and>
       r_xmin r = Min (pt_x ` set (p # ps)) \<and> r_xmax r = Max (pt_x ` set (p # ps)) \<and>
       r_ymin r = Min (pt_y ` set (p # ps)) \<and> r_ymax r = Max (pt_y ` set (p # ps))"
proof -
  let ?r0 = "\<lparr>r_xmin = pt_x p, r_xmax = pt_x p, r_ymin = pt_y p, r_ymax = pt_y p,
           r_smin = nullish (pt_size p) 1, r_smax = nullish (pt_size p) 1\<rparr>"
  from fold_scanPoint_Some [of ps ?r0] obtain r' where
    f: "fold scanPoint ps (Some ?r0) = Some r'" and
    a: "r_xmin r' = Min (insert (r_xmin ?r0) (pt_x ` set ps))" and
    b: "r_xmax r' = Max (insert (r_xmax ?r0) (pt_x ` set ps))" and
    c: "r_ymin r' = Min (insert (r_ymin ?r0) (pt_y ` set ps))" and
    d: "r_ymax r' = Max (insert (r_ymax ?r0) (pt_y ` set ps))"
    by blast
  have "findRanges (p # ps) = Some r'"
    using f by (simp only: findRanges_def fold_Cons o_apply scanPoint_None)
  moreover have "r_xmin r' = Min (pt_x ` set (p # ps))" using a by simp
  moreover have "r_xmax r' = Max (pt_x ` set (p # ps))" using b by simp
  moreover have "r_ymin r' = Min (pt_y ` set (p # ps))" using c by simp
  moreover have "r_ymax r' = Max (pt_y ` set (p # ps))" using d by simp
  ultimately show ?thesis by blast
qed

lemma findRanges_nonempty:
  assumes "ps \<noteq> []"
  shows "\<exists>r. findRanges ps = Some r \<and>
       r_xmin r = Min (pt_x ` set ps) \<and> r_xmax r = Max (pt_x ` set ps) \<and>
       r_ymin r = Min (pt_y ` set ps) \<and> r_ymax r = Max (pt_y ` set ps)"
proof -
  from assms obtain p qs where "ps = p # qs" by (cases ps) auto
  then show ?thesis using findRanges_Cons [of p qs] by simp
qed

lemma findRanges_Nil: "findRanges [] = None"
  by (simp add: findRanges_def)

lemma findRanges_ordered:
  assumes "findRanges ps = Some r"
  shows "r_xmin r \<le> r_xmax r \<and> r_ymin r \<le> r_ymax r"
proof -
  have ne: "ps \<noteq> []" using assms by (auto simp: findRanges_Nil)
  from findRanges_nonempty [OF ne] assms have
    e: "r_xmin r = Min (pt_x ` set ps)" "r_xmax r = Max (pt_x ` set ps)"
       "r_ymin r = Min (pt_y ` set ps)" "r_ymax r = Max (pt_y ` set ps)"
    by auto
  from ne obtain p where p: "p \<in> set ps" by (cases ps) auto
  have "Min (pt_x ` set ps) \<le> pt_x p" "pt_x p \<le> Max (pt_x ` set ps)"
    using p by simp_all
  then have "Min (pt_x ` set ps) \<le> Max (pt_x ` set ps)" by linarith
  moreover have "Min (pt_y ` set ps) \<le> pt_y p" "pt_y p \<le> Max (pt_y ` set ps)"
    using p by simp_all
  then have "Min (pt_y ` set ps) \<le> Max (pt_y ` set ps)" by linarith
  ultimately show ?thesis using e by simp
qed

section \<open>Facts about padding and storing\<close>




lemma findRanges_panelA: "findRanges (c_points panelA) = Some rangesA"
  by (simp add: panelA_def pointA0_def pointA1_def rangesA_def findRanges_def
      scanPoint_None scanPoint_Some nullish_def)

lemma paddedBounds_rangesA:
  "paddedBounds rangesA = \<lparr>b_xmin = -0.5, b_xmax = 10.5, b_ymin = 0.095, b_ymax = 0.205\<rparr>"
  by (simp add: paddedBounds_def rangesA_def rangeDx_def rangeDy_def jsOr_def padding_def)

lemma renderSpace_pointA0: "renderSpace (paddedBounds rangesA) pointA0 = (2/11, 2/11)"
  by (simp add: paddedBounds_rangesA renderSpace_def pointA0_def Let_def)

lemma renderSpace_pointA1: "renderSpace (paddedBounds rangesA) pointA1 = (9/11, 9/11)"
  by (simp add: paddedBounds_rangesA renderSpace_def pointA1_def Let_def)

lemma prepare_nonempty:
  assumes "findRanges (c_points c) = Some r"
  shows "prepare psr dc c =
      \<lparr>prep_id = c_id c,
       prep_pos = concat (map (\<lambda>p. [fst (clipSpace (renderSpace (paddedBounds r) p)),
                                      snd (clipSpace (renderSpace (paddedBounds r) p))]) (c_points c)),
       prep_size = map (pointSize psr r) (c_points c),
       prep_color = concat (map (\<lambda>p. case pointColor dc c p of
                                        (cr, cg, cb) \<Rightarrow> [cr, cg, cb]) (c_points c)),
       prep_count = length (c_points c),
       prep_xmin = b_xmin (paddedBounds r) + rangeDx r * padding,
       prep_xmax = b_xmax (paddedBounds r) - rangeDx r * padding,
       prep_ymin = b_ymin (paddedBounds r) + rangeDy r * padding,
       prep_ymax = b_ymax (paddedBounds r) - rangeDy r * padding\<rparr>"
proof -
  have "c_points c \<noteq> []" using assms by (auto simp: findRanges_Nil)
  then show ?thesis using assms by (simp add: prepare_def Let_def)
qed

lemma prepare_empty: "c_points c = [] \<Longrightarrow> prepare psr dc c = emptyPrepared (c_id c)"
  by (simp add: prepare_def)

lemma prepare_stored:
  assumes "findRanges (c_points c) = Some r"
  shows "prep_xmin (prepare psr dc c) = r_xmin r" "prep_xmax (prepare psr dc c) = r_xmax r"
        "prep_ymin (prepare psr dc c) = r_ymin r" "prep_ymax (prepare psr dc c) = r_ymax r"
  by (simp_all add: prepare_nonempty [OF assms] paddedBounds_def)

lemma clipSpace_pointA0: "clipSpace (renderSpace (paddedBounds rangesA) pointA0) = (-7/11, 7/11)"
  by (simp add: renderSpace_pointA0 clipSpace_def)

lemma prep_pos_panelA: "prep_pos (prepare psr dc panelA) = [-7/11, 7/11, 7/11, -7/11]"
  unfolding prepare_nonempty [OF findRanges_panelA]
  by (simp add: panelA_def renderSpace_pointA0 renderSpace_pointA1 clipSpace_def)

section \<open>The scenario of panel A\<close>

text \<open>
  Claim C3, as amended. For the panel with exactly the points \<open>(t=0, p=0.10)\<close> and
  \<open>(t=10, p=0.20)\<close> the padded bounds are \<open>x:[-0.5, 10.5]\<close> and \<open>y:[0.095, 0.205]\<close>,
  and the point \<open>(t=0, p=0.10)\<close> is placed at render-space \<open>(2/11, 2/11)\<close>, about
  \<open>(0.1818, 0.1818)\<close>, and at clip-space \<open>(-7/11, 7/11)\<close>, about \<open>(-0.6364, 0.6364)\<close>;
  the position buffer of the prepared panel holds these clip-space values.
\<close>

theorem panelA_mapping:
  "findRanges (c_points panelA) = Some rangesA \<and>
   paddedBounds rangesA = \<lparr>b_xmin = -0.5, b_xmax = 10.5, b_ymin = 0.095, b_ymax = 0.205\<rparr> \<and>
   renderSpace (paddedBounds rangesA) pointA0 = (2/11, 2/11) \<and>
   clipSpace (renderSpace (paddedBounds rangesA) pointA0) = (-7/11, 7/11) \<and>
   prep_pos (prepare psr dc panelA) = [-7/11, 7/11, 7/11, -7/11] \<and>
   \<bar>2/11 - (0.1818::real)\<bar> \<le> 0.0001 \<and> \<bar>7/11 - (0.6364::real)\<bar> \<le> 0.0001"
proof -
  have tol: "\<bar>2/11 - (0.1818::real)\<bar> \<le> 0.0001 \<and> \<bar>7/11 - (0.6364::real)\<bar> \<le> 0.0001"
    by simp
  from findRanges_panelA paddedBounds_rangesA renderSpace_pointA0 clipSpace_pointA0
    prep_pos_panelA [of psr dc] tol
  show ?thesis by blast
qed

text \<open>
  The values of the scenario as the specification gives them, render-space
  \<open>(0.178, 0.569)\<close> and clip-space \<open>(-0.644, -0.138)\<close>, are not within \<open>1e-4\<close> of what
  the code computes.
\<close>

theorem panelA_mapping_counterexample:
  "\<not> (\<bar>fst (renderSpace (paddedBounds rangesA) pointA0) - 0.178\<bar> \<le> 0.0001 \<and>
      \<bar>snd (renderSpace (paddedBounds rangesA) pointA0) - 0.569\<bar> \<le> 0.0001 \<and>
      \<bar>prep_pos (prepare (2, 12) (0.35, 0.52, 0.92) panelA) ! 0 - (-0.644)\<bar> \<le> 0.0001 \<and>
      \<bar>prep_pos (prepare (2, 12) (0.35, 0.52, 0.92) panelA) ! 1 - (-0.138)\<bar> \<le> 0.0001)"
  by (simp add: renderSpace_pointA0)

lemma findRanges_panelS: "findRanges (c_points panelS) = Some rangesS"
  by (simp add: panelS_def pointS_def rangesS_def findRanges_def scanPoint_None nullish_def)










lemma emptyPrepared_bounds:
  "prep_xmin (emptyPrepared i) = 0" "prep_xmax (emptyPrepared i) = 1"
  "prep_ymin (emptyPrepared i) = 0" "prep_ymax (emptyPrepared i) = 1"
  "prep_count (emptyPrepared i) = 0"
  by (simp_all add: emptyPrepared_def)

lemma clamp_unit: "0 \<le> max 0 (min 1 u) \<and> max 0 (min 1 u) \<le> (1::real)"
  by simp

lemma padded_unit:
  assumes "0 \<le> u \<and> u \<le> (1::real)"
  shows "0.15 \<le> 0.15 + u * 0.7 \<and> 0.15 + u * 0.7 \<le> 0.85"
  using assms by simp

lemma renderSpace_range:
  "0.15 \<le> fst (renderSpace b p) \<and> fst (renderSpace b p) \<le> 0.85 \<and>
   0.15 \<le> snd (renderSpace b p) \<and> snd (renderSpace b p) \<le> 0.85"
proof -
  let ?ux = "max 0 (min 1 ((pt_x p - b_xmin b) / (b_xmax b - b_xmin b)))"
  let ?uy = "max 0 (min 1 ((pt_y p - b_ymin b) / (b_ymax b - b_ymin b)))"
  have e: "renderSpace b p = (0.15 + ?ux * 0.7, 0.15 + ?uy * 0.7)"
    by (simp only: renderSpace_def Let_def)
  show ?thesis
    unfolding e fst_conv snd_conv
    using padded_unit [OF clamp_unit [of "(pt_x p - b_xmin b) / (b_xmax b - b_xmin b)"]]
      padded_unit [OF clamp_unit [of "(pt_y p - b_ymin b) / (b_ymax b - b_ymin b)"]]
    by (intro conjI) simp_all
qed

lemma clipSpace_range:
  assumes "0.15 \<le> fst u \<and> fst u \<le> 0.85 \<and> 0.15 \<le> snd u \<and> snd u \<le> 0.85"
  shows "- 0.7 \<le> fst (clipSpace u) \<and> fst (clipSpace u) \<le> 0.7 \<and>
         - 0.7 \<le> snd (clipSpace u) \<and> snd (clipSpace u) \<le> 0.7"
  using assms by (simp add: clipSpace_def)

lemma prep_pos_members:
  assumes f: "findRanges (c_points c) = Some r" and v: "v \<in> set (prep_pos (prepare psr dc c))"
  shows "\<exists>p \<in> set (c_points c). v = fst (clipSpace (renderSpace (paddedBounds r) p)) \<or>
                                v = snd (clipSpace (renderSpace (paddedBounds r) p))"
  using v unfolding prepare_nonempty [OF f] by auto

lemma prep_pos_length:
  assumes f: "findRanges (c_points c) = Some r"
  shows "length (prep_pos (prepare psr dc c)) = 2 * length (c_points c)"
  unfolding prepare_nonempty [OF f] by (simp add: length_concat o_def sum_list_triv)

section \<open>Facts about the layout\<close>

lemma length_prepared: "length (prepared props) = length (charts props)"
  by (simp add: prepared_def)

lemma rows_charts: "rows props = \<lceil>real (length (charts props)) / real (columns props)\<rceil>"
  by (simp add: rows_def length_prepared)

lemma rows_nonneg: "0 \<le> rows props"
proof -
  have "0 \<le> real (length (charts props)) / real (columns props)"
    by simp
  then show ?thesis unfolding rows_charts by linarith
qed





section \<open>Rows and total height\<close>





text \<open>
  Claim C10, as amended. With no panel (and at least one column), \<open>rows = 0\<close> and the
  total height is the bottom margin of 40 pixels: the gap term is
  \<open>max(0, rows - 1) * g\<close>. For every number of panels, every column count
  \<open>cols \<ge> 1\<close>, every cell height \<open>cellH \<ge> 0\<close> and every gap \<open>g \<ge> 0\<close> the total height
  is at least 40 and so not negative.
\<close>

theorem height_never_negative:
  assumes "0 < columns props" "0 \<le> cellHeight props" "0 \<le> cellGap props"
  shows "(charts props = [] \<longrightarrow> rows props = 0 \<and> heightPx props = 40) \<and>
    heightPx props = real_of_int (rows props) * cellHeight props +
        real_of_int (max 0 (rows props - 1)) * cellGap props + 40 \<and>
    0 \<le> real_of_int (max 0 (rows props - 1)) * cellGap props \<and>
    40 \<le> heightPx props \<and> 0 \<le> heightPx props"
proof -
  have e: "rows props = 0 \<and> heightPx props = 40" if "charts props = []"
    using that by (simp add: heightPx_def heightOfRows_def rows_charts)
  have f: "heightPx props = real_of_int (rows props) * cellHeight props +
        real_of_int (max 0 (rows props - 1)) * cellGap props + 40"
    by (simp only: heightPx_def heightOfRows_def)
  have g: "0 \<le> real_of_int (max 0 (rows props - 1)) * cellGap props"
    using assms(3) by simp
  have "0 \<le> real_of_int (rows props) * cellHeight props"
    using rows_nonneg [of props] assms(2) by simp
  with f g have h: "40 \<le> heightPx props" by linarith
  from e f g h show ?thesis by simp
qed

theorem height_never_negative_witness:
  "0 < columns (defaultProps []) \<and> 0 \<le> cellHeight (defaultProps []) \<and>
   0 \<le> cellGap (defaultProps []) \<and> charts (defaultProps []) = [] \<and>
   rows (defaultProps []) = 0 \<and> heightPx (defaultProps []) = 40 \<and>
   0 \<le> heightPx (defaultProps [])"
proof -
  let ?p = "defaultProps []"
  have h: "0 < columns ?p" "0 \<le> cellHeight ?p" "0 \<le> cellGap ?p"
    by (simp_all add: defaultProps_def)
  have e: "charts ?p = []" by (simp add: defaultProps_def)
  note t = height_never_negative [OF h]
  note t1 = t [THEN conjunct1, THEN mp, OF e]
  note t5 = t [THEN conjunct2, THEN conjunct2, THEN conjunct2, THEN conjunct2]
  show ?thesis by (intro conjI h e t1 [THEN conjunct1] t1 [THEN conjunct2] t5)
qed

text \<open>
  Without these conditions the height can be negative: seven panels in six columns with
  the cell height \<open>-100\<close> and the default gap 20 give two rows and the height
  \<open>2 * (-100) + 20 + 40 = -140\<close>.
\<close>

theorem height_never_negative_counterexample:
  "rows ((defaultProps (replicate 7 panelA))\<lparr>cellHeight := - 100\<rparr>) = 2 \<and>
   heightPx ((defaultProps (replicate 7 panelA))\<lparr>cellHeight := - 100\<rparr>) = - 140 \<and>
   heightPx ((defaultProps (replicate 7 panelA))\<lparr>cellHeight := - 100\<rparr>) < 0"
  by (simp add: heightPx_def heightOfRows_def rows_charts defaultProps_def)

section \<open>Facts about the pointer handler\<close>

lemma prep_count_prepare: "prep_count (prepare psr dc c) = length (c_points c)"
proof (cases "c_points c = []")
  case True
  then show ?thesis by (simp add: prepare_empty emptyPrepared_bounds)
next
  case False
  from findRanges_nonempty [OF False] obtain r where f: "findRanges (c_points c) = Some r"
    by blast
  show ?thesis unfolding prepare_nonempty [OF f] by simp
qed

lemma prepared_nth:
  "i < length (charts props) \<Longrightarrow>
   prepared props ! i = prepare (pointSizeRange props) (defaultColor props) (charts props ! i)"
  by (simp add: prepared_def)

lemma nearbyPoints_subset: "set (nearbyPoints chart prep ct cp) \<subseteq> set (c_points chart)"
  by (auto simp: nearbyPoints_def Let_def)

lemma nearbyPoints_empty: "c_points chart = [] \<Longrightarrow> nearbyPoints chart prep ct cp = []"
  by (simp add: nearbyPoints_def Let_def)

text \<open>What a tooltip returned by the handler says about the pointer.\<close>

lemma handleMouseMove_Some:
  assumes "handleMouseMove props rect event = Some t"
  shows "0 \<le> chartIndex props rect event"
    "chartIndex props rect event < int (length (charts props))"
    "0 \<le> localX props rect event"
    "localX props rect event \<le> cellWidth (rect_width rect) (columns props) (cellGap props)"
    "0 \<le> localY props rect event"
    "localY props rect event \<le> cellHeight props"
    "t = \<lparr>tt_visible = True, tt_x = clientX event, tt_y = clientY event,
          tt_data = map pointData
            (nearbyPoints (charts props ! nat (chartIndex props rect event))
               (prepared props ! nat (chartIndex props rect event))
               (cursorTime (prepared props ! nat (chartIndex props rect event))
                  (unpadded (localX props rect event /
                     cellWidth (rect_width rect) (columns props) (cellGap props))))
               (cursorPrice (prepared props ! nat (chartIndex props rect event))
                  (unpadded (localY props rect event / cellHeight props))))\<rparr>"
    "nearbyPoints (charts props ! nat (chartIndex props rect event))
               (prepared props ! nat (chartIndex props rect event))
               (cursorTime (prepared props ! nat (chartIndex props rect event))
                  (unpadded (localX props rect event /
                     cellWidth (rect_width rect) (columns props) (cellGap props))))
               (cursorPrice (prepared props ! nat (chartIndex props rect event))
                  (unpadded (localY props rect event / cellHeight props))) \<noteq> []"
  using assms unfolding handleMouseMove_def Let_def
  by (simp_all split: if_splits)

lemma handleMouseMove_no_points:
  assumes "chartIndex props rect event = int i" "c_points (charts props ! i) = []"
  shows "handleMouseMove props rect event = None"
proof (cases "handleMouseMove props rect event")
  case None
  then show ?thesis .
next
  case (Some t)
  from handleMouseMove_Some(8) [OF Some] assms show ?thesis
    by (simp add: nearbyPoints_empty)
qed

lemma isUpTrade_iff: "isUpTrade p = (\<exists>cr cg cb. pt_color p = Some (cr, cg, cb) \<and> cr > cg)"
  by (auto simp: isUpTrade_def split: option.splits)

lemma side_Up: "(te_side (pointData p) = ''Up'') = isUpTrade p"
  by (simp add: pointData_def)

lemma side_Down: "(te_side (pointData p) = ''Down'') = (\<not> isUpTrade p)"
  by (simp add: pointData_def)

lemma not_isUpTrade_iff:
  "(\<not> isUpTrade p) = (pt_color p = None \<or> (\<exists>cr cg cb. pt_color p = Some (cr, cg, cb) \<and> cr \<le> cg))"
  by (auto simp: isUpTrade_def split: option.splits)


lemma cellWidth_rect0: "cellWidth (rect_width rect0) 6 20 = 200"
  by (simp add: cellWidth_def rect0_def)

lemma defaultProps_sel:
  "charts (defaultProps cs) = cs" "columns (defaultProps cs) = 6"
  "cellHeight (defaultProps cs) = 280" "cellGap (defaultProps cs) = 20"
  "pointSizeRange (defaultProps cs) = (2, 12)" "defaultColor (defaultProps cs) = (0.35, 0.52, 0.92)"
  by (simp_all add: defaultProps_def)

lemma mouse_rect0:
  "mouseX rect0 \<lparr>clientX = a, clientY = b\<rparr> = a" "mouseY rect0 \<lparr>clientX = a, clientY = b\<rparr> = b"
  by (simp_all add: mouseX_def mouseY_def rect0_def)

lemma hit_rect0:
  "hitCol (defaultProps cs) rect0 \<lparr>clientX = a, clientY = b\<rparr> = \<lfloor>a / 220\<rfloor>"
  "hitRow (defaultProps cs) rect0 \<lparr>clientX = a, clientY = b\<rparr> = \<lfloor>b / 300\<rfloor>"
  "chartIndex (defaultProps cs) rect0 \<lparr>clientX = a, clientY = b\<rparr> = \<lfloor>b / 300\<rfloor> * 6 + \<lfloor>a / 220\<rfloor>"
  "localX (defaultProps cs) rect0 \<lparr>clientX = a, clientY = b\<rparr> = a - real_of_int \<lfloor>a / 220\<rfloor> * 220"
  "localY (defaultProps cs) rect0 \<lparr>clientX = a, clientY = b\<rparr> = b - real_of_int \<lfloor>b / 300\<rfloor> * 300"
  by (simp_all add: hitCol_def hitRow_def chartIndex_def localX_def localY_def
      cellWidth_rect0 mouse_rect0 defaultProps_sel)

lemma findRanges_panelC: "findRanges (c_points panelC) = Some rangesC"
  by (simp add: panelC_def pointU_def pointD_def rangesC_def findRanges_def
      scanPoint_None scanPoint_Some nullish_def)

lemma stored_panelC:
  "prep_xmin (prepare psr dc panelC) = 0" "prep_xmax (prepare psr dc panelC) = 10"
  "prep_ymin (prepare psr dc panelC) = 0.10" "prep_ymax (prepare psr dc panelC) = 0.20"
  unfolding prepare_stored [OF findRanges_panelC] by (simp_all add: rangesC_def)

lemma stored_panelA:
  "prep_xmin (prepare psr dc panelA) = 0" "prep_xmax (prepare psr dc panelA) = 10"
  "prep_ymin (prepare psr dc panelA) = 0.10" "prep_ymax (prepare psr dc panelA) = 0.20"
  unfolding prepare_stored [OF findRanges_panelA] by (simp_all add: rangesA_def)

lemma cursor_panelC:
  "cursorTime (prepare psr dc panelC) u = u * 10"
  "cursorPrice (prepare psr dc panelC) u = 0.20 - u * 0.10"
  unfolding cursorTime_def cursorPrice_def stored_panelC by simp_all

lemma nearbyPoints_panelC:
  "nearbyPoints panelC (prepare psr dc panelC) ct cp =
     filter (\<lambda>point. \<bar>pt_x point - ct\<bar> < 0.2 \<and> \<bar>pt_y point - cp\<bar> < 0.002) [pointU, pointD]"
  unfolding nearbyPoints_def Let_def stored_panelC by (simp add: panelC_def)

lemma handle_panelC_U:
  "handleMouseMove (defaultProps [panelC]) rect0 \<lparr>clientX = 30, clientY = 238\<rparr> =
     Some \<lparr>tt_visible = True, tt_x = 30, tt_y = 238, tt_data = [pointData pointU]\<rparr>"
  unfolding handleMouseMove_def Let_def hit_rect0 defaultProps_sel cellWidth_rect0
  by (simp add: prepared_def defaultProps_sel nearbyPoints_panelC cursor_panelC unpadded_def
      pointU_def pointD_def)

lemma handle_panelC_D:
  "handleMouseMove (defaultProps [panelC]) rect0 \<lparr>clientX = 170, clientY = 42\<rparr> =
     Some \<lparr>tt_visible = True, tt_x = 170, tt_y = 42, tt_data = [pointData pointD]\<rparr>"
  unfolding handleMouseMove_def Let_def hit_rect0 defaultProps_sel cellWidth_rect0
  by (simp add: prepared_def defaultProps_sel nearbyPoints_panelC cursor_panelC unpadded_def
      pointU_def pointD_def)

lemma pointData_pointU:
  "pointData pointU = \<lparr>te_price = 0.10, te_time = 0, te_size = 3, te_side = ''Up''\<rparr>"
  by (simp add: pointData_def pointU_def isUpTrade_def jsOr_def)

lemma pointData_pointD:
  "pointData pointD = \<lparr>te_price = 0.20, te_time = 10, te_size = 1, te_side = ''Down''\<rparr>"
  by (simp add: pointData_def pointD_def isUpTrade_def)

section \<open>The side reported in the tooltip\<close>

text \<open>
  Claim C9. The tooltip payload is the list of the nearby points of the panel under the
  pointer, in their order, each turned into an entry; the entry of a point says
  \<open>Up\<close> exactly when the point has a colour whose red component is strictly greater
  than its green component, and \<open>Down\<close> exactly when it has no colour or red is at most
  green.
\<close>

theorem tooltip_side:
  assumes "handleMouseMove props rect event = Some t"
  shows "\<exists>ps. ps \<noteq> [] \<and>
     set ps \<subseteq> set (c_points (charts props ! nat (chartIndex props rect event))) \<and>
     tt_data t = map pointData ps \<and>
     (\<forall>p. (te_side (pointData p) = ''Up'') =
             (\<exists>cr cg cb. pt_color p = Some (cr, cg, cb) \<and> cr > cg) \<and>
          (te_side (pointData p) = ''Down'') =
             (pt_color p = None \<or> (\<exists>cr cg cb. pt_color p = Some (cr, cg, cb) \<and> cr \<le> cg)))"
proof -
  let ?ps = "nearbyPoints (charts props ! nat (chartIndex props rect event))
               (prepared props ! nat (chartIndex props rect event))
               (cursorTime (prepared props ! nat (chartIndex props rect event))
                  (unpadded (localX props rect event /
                     cellWidth (rect_width rect) (columns props) (cellGap props))))
               (cursorPrice (prepared props ! nat (chartIndex props rect event))
                  (unpadded (localY props rect event / cellHeight props)))"
  have a: "?ps \<noteq> []" by (rule handleMouseMove_Some(8) [OF assms])
  have b: "set ?ps \<subseteq> set (c_points (charts props ! nat (chartIndex props rect event)))"
    by (rule nearbyPoints_subset)
  have c: "tt_data t = map pointData ?ps"
    unfolding handleMouseMove_Some(7) [OF assms] by simp
  have d: "\<forall>p. (te_side (pointData p) = ''Up'') =
             (\<exists>cr cg cb. pt_color p = Some (cr, cg, cb) \<and> cr > cg) \<and>
          (te_side (pointData p) = ''Down'') =
             (pt_color p = None \<or> (\<exists>cr cg cb. pt_color p = Some (cr, cg, cb) \<and> cr \<le> cg))"
  proof (intro allI conjI)
    fix p
    show "(te_side (pointData p) = ''Up'') =
             (\<exists>cr cg cb. pt_color p = Some (cr, cg, cb) \<and> cr > cg)"
      by (simp only: side_Up isUpTrade_iff)
    show "(te_side (pointData p) = ''Down'') =
             (pt_color p = None \<or> (\<exists>cr cg cb. pt_color p = Some (cr, cg, cb) \<and> cr \<le> cg))"
      by (simp only: side_Down not_isUpTrade_iff)
  qed
  show ?thesis by (intro exI [of _ ?ps] conjI a b c d)
qed

theorem tooltip_side_witness:
  "handleMouseMove (defaultProps [panelC]) rect0 \<lparr>clientX = 30, clientY = 238\<rparr> =
     Some \<lparr>tt_visible = True, tt_x = 30, tt_y = 238, tt_data = [pointData pointU]\<rparr> \<and>
   pt_color pointU = Some (0.9, 0.2, 0.2) \<and> te_side (pointData pointU) = ''Up'' \<and>
   pt_color pointD = Some (0.2, 0.8, 0.2) \<and> te_side (pointData pointD) = ''Down'' \<and>
   pt_color pointA0 = None \<and> te_side (pointData pointA0) = ''Down''"
proof -
  from tooltip_side [OF handle_panelC_U] have
    s: "\<forall>p. (te_side (pointData p) = ''Up'') =
             (\<exists>cr cg cb. pt_color p = Some (cr, cg, cb) \<and> cr > cg) \<and>
          (te_side (pointData p) = ''Down'') =
             (pt_color p = None \<or> (\<exists>cr cg cb. pt_color p = Some (cr, cg, cb) \<and> cr \<le> cg))"
    by blast
  have cu: "pt_color pointU = Some (0.9, 0.2, 0.2)" by (simp add: pointU_def)
  have cd: "pt_color pointD = Some (0.2, 0.8, 0.2)" by (simp add: pointD_def)
  have ca: "pt_color pointA0 = None" by (simp add: pointA0_def)
  have eu: "\<exists>cr cg cb. pt_color pointU = Some (cr, cg, cb) \<and> cr > cg"
    unfolding cu by (intro exI [of _ "0.9"] exI [of _ "0.2"]) simp
  have ed: "pt_color pointD = None \<or>
      (\<exists>cr cg cb. pt_color pointD = Some (cr, cg, cb) \<and> cr \<le> cg)"
    unfolding cd by (intro disjI2 exI [of _ "0.2"] exI [of _ "0.8"]) simp
  have ea: "pt_color pointA0 = None \<or>
      (\<exists>cr cg cb. pt_color pointA0 = Some (cr, cg, cb) \<and> cr \<le> cg)"
    using ca by (rule disjI1)
  have u: "te_side (pointData pointU) = ''Up''"
    by (rule iffD2 [OF s [THEN spec, of pointU, THEN conjunct1] eu])
  have d: "te_side (pointData pointD) = ''Down''"
    by (rule iffD2 [OF s [THEN spec, of pointD, THEN conjunct2] ed])
  have a: "te_side (pointData pointA0) = ''Down''"
    by (rule iffD2 [OF s [THEN spec, of pointA0, THEN conjunct2] ea])
  show ?thesis by (intro conjI handle_panelC_U cu u cd d ca a)
qed

section \<open>Facts about the renderer and the cell lookup\<close>

lemma drawCell_member:
  assumes "d \<in> set (drawCell preps cols cw ch gap cssH j)"
  shows "dc_buffers d = j \<and> 0 < prep_count (preps ! j)"
  using assms unfolding drawCell_def Let_def by (auto split: if_splits)

lemma render_draws_member:
  assumes "d \<in> set (fr_draws (render props dpr cw ch))"
  shows "dc_buffers d < length (prepared props) \<and> 0 < prep_count (prepared props ! dc_buffers d)"
proof -
  from assms obtain j where j: "j < length (prepared props)" and
    d: "d \<in> set (drawCell (prepared props) (columns props)
           (cellWidth (jsOr cw 1) (columns props) (cellGap props)) (cellHeight props) (cellGap props)
           (max (jsOr ch 1) (heightOfRows \<lceil>real (length (prepared props)) / real (columns props)\<rceil>
              (cellHeight props) (cellGap props))) j)"
    unfolding render_def Let_def by auto
  from drawCell_member [OF d] j show ?thesis by simp
qed

lemma count_without_points:
  assumes "i < length (charts props)" "c_points (charts props ! i) = []"
  shows "prep_count (prepared props ! i) = 0"
  using assms by (simp add: prepared_nth prep_count_prepare)

section \<open>Panels without points\<close>

text \<open>
  Claim C7. A panel with zero points keeps its place in the grid: it has its own prepared
  panel, of count 0, at its index, and it counts for the number of rows. The renderer
  issues no draw call for its buffers, and the pointer handler returns no tooltip
  whenever the pointer resolves to its index.
\<close>

theorem empty_panel:
  assumes "i < length (charts props)" "c_points (charts props ! i) = []"
  shows "length (prepared props) = length (charts props) \<and>
    rows props = \<lceil>real (length (charts props)) / real (columns props)\<rceil> \<and>
    prep_count (prepared props ! i) = 0 \<and>
    (\<forall>d \<in> set (fr_draws (render props dpr cw ch)). dc_buffers d \<noteq> i) \<and>
    (\<forall>rect event. chartIndex props rect event = int i \<longrightarrow>
        handleMouseMove props rect event = None)"
proof (intro conjI ballI allI impI)
  show "length (prepared props) = length (charts props)" by (rule length_prepared)
  show "rows props = \<lceil>real (length (charts props)) / real (columns props)\<rceil>"
    by (rule rows_charts)
  show z: "prep_count (prepared props ! i) = 0" by (rule count_without_points [OF assms])
  show "dc_buffers d \<noteq> i" if "d \<in> set (fr_draws (render props dpr cw ch))" for d
    using render_draws_member [OF that] z by auto
  show "handleMouseMove props rect event = None"
    if "chartIndex props rect event = int i" for rect event
    by (rule handleMouseMove_no_points [OF that assms(2)])
qed

lemma prepared_EA:
  "prepared (defaultProps [panelE, panelA]) =
     [prepare (2, 12) (0.35, 0.52, 0.92) panelE, prepare (2, 12) (0.35, 0.52, 0.92) panelA]"
  by (simp add: prepared_def defaultProps_sel)

lemma count_EA:
  "prep_count (prepare psr dc panelE) = 0" "prep_count (prepare psr dc panelA) = 2"
  by (simp_all add: prep_count_prepare panelE_def panelA_def)

lemma ceiling_one_third: "\<lceil>1 / 3 :: real\<rceil> = 1"
  by (rule ceiling_unique) simp_all

lemma draws_EA:
  "fr_draws (render (defaultProps [panelE, panelA]) 1 1300 340) =
     [\<lparr>dc_buffers = 1, dc_count = 2,
       dc_viewport = \<lparr>vp_x = 220, vp_y = 60, vp_width = 200, vp_height = 280\<rparr>,
       dc_scissor = \<lparr>vp_x = 220, vp_y = 60, vp_width = 200, vp_height = 280\<rparr>\<rparr>]"
  unfolding render_def Let_def prepared_EA defaultProps_sel
  by (simp add: drawCell_def Let_def count_EA jsOr_def cellWidth_def heightOfRows_def
      upt_conv_Cons ceiling_one_third)


lemma rows_EA: "rows (defaultProps [panelE, panelA]) = 1"
  by (simp add: rows_charts defaultProps_sel ceiling_one_third)

theorem empty_panel_witness:
  "0 < length (charts (defaultProps [panelE, panelA])) \<and>
   c_points (charts (defaultProps [panelE, panelA]) ! 0) = [] \<and>
   length (prepared (defaultProps [panelE, panelA])) = 2 \<and>
   rows (defaultProps [panelE, panelA]) = 1 \<and>
   prep_count (prepared (defaultProps [panelE, panelA]) ! 0) = 0 \<and>
   fr_draws (render (defaultProps [panelE, panelA]) 1 1300 340) =
     [\<lparr>dc_buffers = 1, dc_count = 2,
       dc_viewport = \<lparr>vp_x = 220, vp_y = 60, vp_width = 200, vp_height = 280\<rparr>,
       dc_scissor = \<lparr>vp_x = 220, vp_y = 60, vp_width = 200, vp_height = 280\<rparr>\<rparr>] \<and>
   dc_buffers (hd (fr_draws (render (defaultProps [panelE, panelA]) 1 1300 340))) \<noteq> 0 \<and>
   chartIndex (defaultProps [panelE, panelA]) rect0 \<lparr>clientX = 30, clientY = 238\<rparr> = 0 \<and>
   handleMouseMove (defaultProps [panelE, panelA]) rect0 \<lparr>clientX = 30, clientY = 238\<rparr> = None"
proof -
  let ?p = "defaultProps [panelE, panelA]"
  let ?ev = "\<lparr>clientX = 30, clientY = 238\<rparr>"
  have h1: "0 < length (charts ?p)" by (simp add: defaultProps_sel)
  have h2: "c_points (charts ?p ! 0) = []" by (simp add: defaultProps_sel panelE_def)
  have idx: "chartIndex ?p rect0 ?ev = 0" by (simp add: hit_rect0)
  have idx': "chartIndex ?p rect0 ?ev = int 0" using idx by simp
  have mem: "hd (fr_draws (render ?p 1 1300 340)) \<in> set (fr_draws (render ?p 1 1300 340))"
    unfolding draws_EA by simp
  note t = empty_panel [OF h1 h2, of 1 1300 340]
  have l: "length (prepared ?p) = 2"
    using t [THEN conjunct1] by (simp add: defaultProps_sel)
  note c = t [THEN conjunct2, THEN conjunct2, THEN conjunct1]
  note d = t [THEN conjunct2, THEN conjunct2, THEN conjunct2, THEN conjunct1, THEN bspec, OF mem]
  note n = t [THEN conjunct2, THEN conjunct2, THEN conjunct2, THEN conjunct2, THEN spec,
      THEN spec, THEN mp, OF idx']
  show ?thesis by (intro conjI h1 h2 l rows_EA c draws_EA d idx n)
qed



lemma floor_slot_bounds:
  assumes "0 < (q::real)"
  shows "real_of_int \<lfloor>v / q\<rfloor> * q \<le> v" "v < (real_of_int \<lfloor>v / q\<rfloor> + 1) * q"
proof -
  have "real_of_int \<lfloor>v / q\<rfloor> \<le> v / q" by simp
  then show "real_of_int \<lfloor>v / q\<rfloor> * q \<le> v" using assms by (simp add: le_divide_eq)
  have "v / q < real_of_int \<lfloor>v / q\<rfloor> + 1" by linarith
  then show "v < (real_of_int \<lfloor>v / q\<rfloor> + 1) * q"
    unfolding pos_divide_less_eq [OF assms] .
qed





section \<open>From the pointer to the panel\<close>


lemma prepared_nine:
  "prepared (defaultProps (replicate 9 panelC)) ! 8 = prepare (2, 12) (0.35, 0.52, 0.92) panelC"
  by (simp add: prepared_def defaultProps_sel)




lemma nearbyPoints_panelA:
  "nearbyPoints panelA (prepare psr dc panelA) ct cp =
     filter (\<lambda>point. \<bar>pt_x point - ct\<bar> < 0.2 \<and> \<bar>pt_y point - cp\<bar> < 0.002) [pointA0, pointA1]"
  unfolding nearbyPoints_def Let_def stored_panelA by (simp add: panelA_def)

lemma cursor_panelA:
  "cursorTime (prepare psr dc panelA) u = u * 10"
  "cursorPrice (prepare psr dc panelA) u = 0.20 - u * 0.10"
  unfolding cursorTime_def cursorPrice_def stored_panelA by simp_all

lemma near_panelA_own_pixel:
  "nearbyPoints panelA (prepare psr dc panelA)
     (cursorTime (prepare psr dc panelA) (unpadded (2 / 11))) cp = []"
  unfolding nearbyPoints_panelA cursor_panelA
  by (simp add: unpadded_def pointA0_def pointA1_def)

section \<open>Placing a point and hovering over it\<close>

text \<open>
  Claim C2 does not hold of the code. The point \<open>(t=0, p=0.10)\<close> of panel A lies within
  the padded bounds and is drawn at the fraction \<open>2/11\<close> of the cell's width, that is at
  \<open>x = 200 * 2/11\<close> in a cell 200 pixels wide. With the pointer at that \<open>x\<close>, at any
  height, the handler returns no tooltip: it inverts with the stored, unpadded bounds
  and gets the cursor time \<open>5/11\<close>, further than the threshold \<open>0.2\<close> from the point's
  time 0.
\<close>

theorem round_trip_misses_point:
  "handleMouseMove (defaultProps [panelA]) rect0
     \<lparr>clientX = 200 * fst (renderSpace (paddedBounds rangesA) pointA0), clientY = y\<rparr> = None"
proof (cases "handleMouseMove (defaultProps [panelA]) rect0
     \<lparr>clientX = 200 * fst (renderSpace (paddedBounds rangesA) pointA0), clientY = y\<rparr>")
  case None
  then show ?thesis .
next
  case (Some t)
  let ?p = "defaultProps [panelA]"
  let ?e = "\<lparr>clientX = 200 * fst (renderSpace (paddedBounds rangesA) pointA0), clientY = y\<rparr>"
  note h = handleMouseMove_Some [OF Some]
  have "chartIndex ?p rect0 ?e < 1" using h(2) by (simp add: defaultProps_sel)
  with h(1) have i: "chartIndex ?p rect0 ?e = 0" by linarith
  have lx: "localX ?p rect0 ?e = 400 / 11"
    by (simp add: hit_rect0 renderSpace_pointA0)
  have cw: "cellWidth (rect_width rect0) (columns ?p) (cellGap ?p) = 200"
    by (simp add: defaultProps_sel cellWidth_rect0)
  have c0: "charts ?p ! nat 0 = panelA" by (simp add: defaultProps_sel)
  have p0: "prepared ?p ! nat 0 = prepare (2, 12) (0.35, 0.52, 0.92) panelA"
    by (simp add: prepared_def defaultProps_sel)
  have n: "(400 / 11) / 200 = (2 / 11 :: real)" by simp
  from h(8) show ?thesis
    unfolding i lx cw c0 p0 n near_panelA_own_pixel by simp
qed

section \<open>Facts about the operations on numbers\<close>

lemma fl_exact: "fl exact x = Fin x"
  by (simp add: fl_def exact_def)

lemma fl_split:
  "fl F x = (if inRange F (rnd F x) then Fin (rnd F x)
             else case maxnum F of None \<Rightarrow> NaN
                  | Some h \<Rightarrow> if h < rnd F x then PInf else NInf)"
  by (auto simp: fl_def inRange_def Let_def split: option.splits)

lemma fl_Fin:
  assumes "fl F x = Fin a"
  shows "a = rnd F x" "inRange F a"
  using assms by (auto simp: fl_def inRange_def Let_def split: option.splits if_splits)

lemma fl_inRange: "inRange F (rnd F x) \<Longrightarrow> fl F x = Fin (rnd F x)"
  by (simp add: fl_split)

lemma inRange_between:
  assumes "inRange F a" "inRange F b" "a \<le> y" "y \<le> b"
  shows "inRange F y"
  using assms by (auto simp: inRange_def split: option.splits)

lemma valid_mono: "valid F \<Longrightarrow> x \<le> y \<Longrightarrow> rnd F x \<le> rnd F y"
  by (simp add: valid_def mono_def)

lemma valid_idem: "valid F \<Longrightarrow> rnd F (rnd F x) = rnd F x"
  by (simp add: valid_def)

lemma valid_zero: "valid F \<Longrightarrow> rnd F 0 = 0"
  by (simp add: valid_def)

lemma valid_exact: "valid exact"
  by (simp add: valid_def exact_def mono_def inRange_def)

lemma representable_exact: "representable exact v"
  by (simp add: representable_def fl_exact)

lemma representable_rnd: "representable F v \<Longrightarrow> rnd F v = v"
  using fl_Fin(1) [of F v v] by (simp add: representable_def)

lemma fl_never_NaN: "fl F x \<noteq> NaN"
  by (auto simp: fl_def Let_def split: option.splits)

lemma fl_nonneg:
  assumes "valid F" "0 \<le> x"
  shows "(\<exists>a. fl F x = Fin a \<and> 0 \<le> a) \<or> fl F x = PInf"
proof -
  have r: "0 \<le> rnd F x" using valid_mono [OF assms] valid_zero [OF assms(1)] by simp
  have z: "inRange F 0" using assms(1) by (simp add: valid_def)
  show ?thesis
  proof (cases "inRange F (rnd F x)")
    case True
    then show ?thesis using r by (simp add: fl_inRange)
  next
    case False
    then show ?thesis using r z
      by (auto simp: fl_split inRange_def split: option.splits)
  qed
qed

lemma add_Fin:
  assumes "add F x y = Fin s"
  shows "\<exists>a b. x = Fin a \<and> y = Fin b \<and> fl F (a + b) = Fin s"
  using assms by (cases x; cases y) simp_all

lemma neg_Fin: "neg y = Fin b \<Longrightarrow> y = Fin (- b)"
  by (cases y) simp_all

lemma sub_Fin:
  assumes "sub F x y = Fin s"
  shows "\<exists>a b. x = Fin a \<and> y = Fin b \<and> fl F (a - b) = Fin s"
proof -
  from add_Fin [OF assms [unfolded sub_def]] obtain a b where
    x: "x = Fin a" and n: "neg y = Fin b" and f: "fl F (a + b) = Fin s" by blast
  from neg_Fin [OF n] have y: "y = Fin (- b)" .
  from f have "fl F (a - (- b)) = Fin s" by simp
  with x y show ?thesis by blast
qed

lemma infTimes_not_Fin: "infTimes s a \<noteq> Fin w"
  by (simp add: infTimes_def)

lemma mul_Fin:
  assumes "mul F x y = Fin w"
  shows "\<exists>v c. x = Fin v \<and> y = Fin c \<and> fl F (v * c) = Fin w"
  using assms by (cases x; cases y) (simp_all add: infTimes_not_Fin)

lemma sub_Fin_Fin: "sub F (Fin a) (Fin b) = fl F (a - b)"
  by (simp add: sub_def)

lemma add_NaN_right: "add F a NaN = NaN"
  by (cases a) simp_all

lemma sub_NaN_left: "sub F NaN b = NaN"
  by (simp add: sub_def)

lemma mul_NaN_right: "mul F a NaN = NaN"
  by (cases a) simp_all

text \<open>The range of an axis is positive or infinite, and the padding amount not negative.\<close>

lemma rangeD_Fin:
  assumes v: "valid F" and o: "lo \<le> hi"
    and d: "jsOrN (sub F (Fin hi) (Fin lo)) (Fin 1) = Fin u"
  shows "0 < u"
proof -
  have nn: "0 \<le> hi - lo" using o by simp
  from fl_nonneg [OF v nn] show ?thesis
  proof
    assume "\<exists>a. fl F (hi - lo) = Fin a \<and> 0 \<le> a"
    then obtain a where a: "fl F (hi - lo) = Fin a" "0 \<le> a" by blast
    from d show ?thesis unfolding sub_Fin_Fin a(1) using a(2)
      by (simp split: if_splits)
  next
    assume "fl F (hi - lo) = PInf"
    with d show ?thesis unfolding sub_Fin_Fin by simp
  qed
qed

lemma pad_Fin:
  assumes v: "valid F" and o: "lo \<le> hi"
    and p: "mul F (jsOrN (sub F (Fin hi) (Fin lo)) (Fin 1)) (fl F 0.05) = Fin w"
  shows "0 \<le> w"
proof -
  from mul_Fin [OF p] obtain u c where
    u: "jsOrN (sub F (Fin hi) (Fin lo)) (Fin 1) = Fin u" and c: "fl F 0.05 = Fin c"
    and w: "fl F (u * c) = Fin w" by blast
  have up: "0 < u" by (rule rangeD_Fin [OF v o u])
  have "c = rnd F 0.05" by (rule fl_Fin(1) [OF c])
  then have cp: "0 \<le> c" using valid_mono [OF v, of 0 "0.05"] valid_zero [OF v] by simp
  have "w = rnd F (u * c)" by (rule fl_Fin(1) [OF w])
  moreover have "0 \<le> u * c" using up cp by simp
  ultimately show ?thesis using valid_mono [OF v, of 0 "u * c"] valid_zero [OF v] by simp
qed

text \<open>One axis: the padded bounds enclose the raw ones, the stored bounds lie between them.\<close>

lemma axis_bounds:
  assumes v: "valid F" and o: "lo \<le> hi"
    and rl: "representable F lo" and rh: "representable F hi"
    and a: "sub F (Fin lo) pad = Fin a" and b: "add F (Fin hi) pad = Fin b"
    and p: "pad = mul F (jsOrN (sub F (Fin hi) (Fin lo)) (Fin 1)) (fl F 0.05)"
  shows "\<exists>w s t. pad = Fin w \<and> 0 \<le> w \<and>
      add F (Fin a) pad = Fin s \<and> sub F (Fin b) pad = Fin t \<and>
      a \<le> lo \<and> hi \<le> b \<and> a \<le> s \<and> s \<le> b \<and> a \<le> t \<and> t \<le> b"
proof -
  from sub_Fin [OF a] obtain w where w: "pad = Fin w" and fa: "fl F (lo - w) = Fin a"
    by auto
  have wp: "0 \<le> w" using pad_Fin [OF v o] p w by simp
  have fb: "fl F (hi + w) = Fin b" using b unfolding w by simp
  note ea = fl_Fin [OF fa] and eb = fl_Fin [OF fb]
  have a_lo: "a \<le> lo"
    using valid_mono [OF v, of "lo - w" lo] wp unfolding ea(1) representable_rnd [OF rl] by simp
  have hi_b: "hi \<le> b"
    using valid_mono [OF v, of hi "hi + w"] wp unfolding eb(1) representable_rnd [OF rh] by simp
  have ra: "rnd F a = a" unfolding ea(1) by (rule valid_idem [OF v])
  have rb: "rnd F b = b" unfolding eb(1) by (rule valid_idem [OF v])
  let ?s = "rnd F (a + w)" and ?t = "rnd F (b - w)"
  have s1: "a \<le> ?s" using valid_mono [OF v, of a "a + w"] wp unfolding ra by simp
  have "a + w \<le> hi + w" using a_lo o by simp
  then have s2: "?s \<le> b" using valid_mono [OF v, of "a + w" "hi + w"] unfolding eb(1) by simp
  have t2: "?t \<le> b" using valid_mono [OF v, of "b - w" b] wp unfolding rb by simp
  have "lo - w \<le> b - w" using hi_b o by simp
  then have t1: "a \<le> ?t" using valid_mono [OF v, of "lo - w" "b - w"] unfolding ea(1) by simp
  have fs: "fl F (a + w) = Fin ?s"
    by (rule fl_inRange [OF inRange_between [OF ea(2) eb(2) s1 s2]])
  have ft: "fl F (b - w) = Fin ?t"
    by (rule fl_inRange [OF inRange_between [OF ea(2) eb(2) t1 t2]])
  have "add F (Fin a) pad = Fin ?s" unfolding w using fs by simp
  moreover have "sub F (Fin b) pad = Fin ?t" unfolding w sub_Fin_Fin using ft .
  ultimately show ?thesis using w wp a_lo hi_b s1 s2 t1 t2 by blast
qed


section \<open>Evaluating the rounding of \<open>binary64\<close>\<close>

lemma expo_eval:
  assumes "2 powr real_of_int e \<le> \<bar>x\<bar>" "\<bar>x\<bar> < 2 powr (real_of_int e + 1)" "emin \<le> e"
  shows "expoIEEE emin x = e"
proof -
  have "0 < 2 powr real_of_int e" by simp
  with assms(1) have p: "0 < \<bar>x\<bar>" by linarith
  have "\<lfloor>log 2 \<bar>x\<bar>\<rfloor> = e" using p assms(1,2) by (simp add: floor_log_eq_powr_iff)
  then show ?thesis using assms(3) by (simp add: expoIEEE_def)
qed

lemma rne_down: "real_of_int f \<le> t \<Longrightarrow> t - real_of_int f < 1 / 2 \<Longrightarrow> rne t = f"
proof -
  assume a: "real_of_int f \<le> t" "t - real_of_int f < 1 / 2"
  then have "\<lfloor>t\<rfloor> = f" by linarith
  then show "rne t = f" using a by (simp add: rne_def)
qed

lemma rne_up:
  "real_of_int f \<le> t \<Longrightarrow> 1 / 2 < t - real_of_int f \<Longrightarrow> t < real_of_int f + 1 \<Longrightarrow> rne t = f + 1"
proof -
  assume a: "real_of_int f \<le> t" "1 / 2 < t - real_of_int f" "t < real_of_int f + 1"
  then have "\<lfloor>t\<rfloor> = f" by linarith
  then show "rne t = f + 1" using a by (simp add: rne_def)
qed

lemma rnd_eval:
  assumes "2 powr real_of_int e \<le> \<bar>x\<bar>" "\<bar>x\<bar> < 2 powr (real_of_int e + 1)" "emin \<le> e"
    and "2 powr (real_of_int e - (real p - 1)) = q" and "rne (x / q) = n"
  shows "rndIEEE p emin x = real_of_int n * q"
proof -
  have "0 < 2 powr real_of_int e" by simp
  with assms(1) have nz: "x \<noteq> 0" by auto
  have u: "ulpIEEE p emin x = q"
    unfolding ulpIEEE_def expo_eval [OF assms(1-3)] by (rule assms(4))
  show ?thesis unfolding rndIEEE_def u assms(5) using nz by simp
qed

lemma rnd_down:
  assumes "2 powr real_of_int e \<le> \<bar>x\<bar>" "\<bar>x\<bar> < 2 powr (real_of_int e + 1)" "emin \<le> e"
    and "2 powr (real_of_int e - (real p - 1)) = q"
    and "real_of_int f \<le> x / q" "x / q - real_of_int f < 1 / 2"
  shows "rndIEEE p emin x = real_of_int f * q"
  by (rule rnd_eval [OF assms(1-4) rne_down [OF assms(5,6)]])

lemma rnd_up:
  assumes "2 powr real_of_int e \<le> \<bar>x\<bar>" "\<bar>x\<bar> < 2 powr (real_of_int e + 1)" "emin \<le> e"
    and "2 powr (real_of_int e - (real p - 1)) = q"
    and "real_of_int f \<le> x / q" "1 / 2 < x / q - real_of_int f" "x / q < real_of_int f + 1"
  shows "rndIEEE p emin x = real_of_int (f + 1) * q"
  by (rule rnd_eval [OF assms(1-4) rne_up [OF assms(5-7)]])

lemma r64_lit: "rndIEEE 53 (- 1022) (0.05) = lit005"
proof -
  have "rndIEEE 53 (- 1022) (0.05) = real_of_int (7205759403792793 + 1) * (1 / 2 ^ 57)"
    by (rule rnd_up [where e = "- 5"]) (simp_all add: powr_neg_numeral lit005_def)
  then show ?thesis by (simp add: lit005_def)
qed

lemma r64_lit_id: "rndIEEE 53 (- 1022) (lit005) = lit005"
proof -
  have "rndIEEE 53 (- 1022) (lit005) = real_of_int 7205759403792794 * (1 / 2 ^ 57)"
    by (rule rnd_down [where e = "- 5"]) (simp_all add: powr_neg_numeral lit005_def)
  then show ?thesis by (simp add: lit005_def)
qed

lemma r64_large_minus: "rndIEEE 53 (- 1022) (1700000000000000 - lit005) = 1700000000000000"
proof -
  have "rndIEEE 53 (- 1022) (1700000000000000 - lit005) = real_of_int (6799999999999999 + 1) * (1 / 2 ^ 2)"
    by (rule rnd_up [where e = "50"]) (simp_all add: powr_neg_numeral lit005_def)
  then show ?thesis by (simp add: lit005_def)
qed

lemma r64_large_plus: "rndIEEE 53 (- 1022) (1700000000000000 + lit005) = 1700000000000000"
proof -
  have "rndIEEE 53 (- 1022) (1700000000000000 + lit005) = real_of_int 6800000000000000 * (1 / 2 ^ 2)"
    by (rule rnd_down [where e = "50"]) (simp_all add: powr_neg_numeral lit005_def)
  then show ?thesis by (simp add: lit005_def)
qed





lemma r64_ten: "rndIEEE 53 (- 1022) (10) = 10"
proof -
  have "rndIEEE 53 (- 1022) (10) = real_of_int 5629499534213120 * (1 / 2 ^ 49)"
    by (rule rnd_down [where e = "3"]) (simp_all add: powr_neg_numeral)
  then show ?thesis by (simp)
qed

lemma r64_ten_pad: "rndIEEE 53 (- 1022) (10 * lit005) = 1 / 2"
proof -
  have "rndIEEE 53 (- 1022) (10 * lit005) = real_of_int 4503599627370496 * (1 / 2 ^ 53)"
    by (rule rnd_down [where e = "- 1"]) (simp_all add: powr_neg_numeral lit005_def)
  then show ?thesis by (simp add: lit005_def)
qed

lemma r64_minus_half: "rndIEEE 53 (- 1022) (- (1 / 2)) = - (1 / 2)"
proof -
  have "rndIEEE 53 (- 1022) (- (1 / 2)) = real_of_int (- 4503599627370496) * (1 / 2 ^ 53)"
    by (rule rnd_down [where e = "- 1"]) (simp_all add: powr_neg_numeral)
  then show ?thesis by (simp)
qed

lemma r64_ten_half: "rndIEEE 53 (- 1022) (21 / 2) = 21 / 2"
proof -
  have "rndIEEE 53 (- 1022) (21 / 2) = real_of_int 5910974510923776 * (1 / 2 ^ 49)"
    by (rule rnd_down [where e = "3"]) (simp_all add: powr_neg_numeral)
  then show ?thesis by (simp)
qed


lemma max64_large: "(2::real) ^ 60 \<le> 2 ^ 1024 - 2 ^ 971"
proof -
  have "(2::real) ^ 971 \<le> 2 ^ 1023" by (rule power_increasing) simp_all
  moreover have "(2::real) ^ 1024 = 2 * 2 ^ 1023" by simp
  moreover have "(2::real) ^ 60 \<le> 2 ^ 1023" by (rule power_increasing) simp_all
  ultimately show ?thesis by linarith
qed

lemma fl_b64:
  assumes "rndIEEE 53 (- 1022) x = y" "\<bar>y\<bar> \<le> 2 ^ 60"
  shows "fl binary64 x = Fin y"
proof -
  have "\<bar>y\<bar> \<le> 2 ^ 1024 - 2 ^ 971" using assms(2) max64_large by linarith
  then show ?thesis using assms(1) by (auto simp: fl_def binary64_def Let_def)
qed


lemma r64_quarter: "rndIEEE 53 (- 1022) (1 / 4) = 1 / 4"
proof -
  have "rndIEEE 53 (- 1022) (1 / 4) = real_of_int 4503599627370496 * (1 / 2 ^ 54)"
    by (rule rnd_down [where e = "- 2"]) (simp_all add: powr_neg_numeral)
  then show ?thesis by (simp)
qed

lemma r64_half: "rndIEEE 53 (- 1022) (1 / 2) = 1 / 2"
proof -
  have "rndIEEE 53 (- 1022) (1 / 2) = real_of_int 4503599627370496 * (1 / 2 ^ 53)"
    by (rule rnd_down [where e = "- 1"]) (simp_all add: powr_neg_numeral)
  then show ?thesis by (simp)
qed

lemma r64_quarter_pad: "rndIEEE 53 (- 1022) (lit005 / 4) = lit005 / 4"
proof -
  have "rndIEEE 53 (- 1022) (lit005 / 4) = real_of_int 7205759403792794 * (1 / 2 ^ 59)"
    by (rule rnd_down [where e = "- 7"]) (simp_all add: powr_neg_numeral lit005_def)
  then show ?thesis by (simp add: lit005_def)
qed

lemma r64_quarter_minus: "rndIEEE 53 (- 1022) (1 / 4 - lit005 / 4) = 4278419646001971 / 2 ^ 54"
proof -
  have "rndIEEE 53 (- 1022) (1 / 4 - lit005 / 4) = real_of_int 8556839292003942 * (1 / 2 ^ 55)"
    by (rule rnd_down [where e = "- 3"]) (simp_all add: powr_neg_numeral lit005_def)
  then show ?thesis by (simp add: lit005_def)
qed

lemma r64_half_plus: "rndIEEE 53 (- 1022) (1 / 2 + lit005 / 4) = 2308094809027379 / 2 ^ 52"
proof -
  have "rndIEEE 53 (- 1022) (1 / 2 + lit005 / 4) = real_of_int 4616189618054758 * (1 / 2 ^ 53)"
    by (rule rnd_down [where e = "- 1"]) (simp_all add: powr_neg_numeral lit005_def)
  then show ?thesis by (simp add: lit005_def)
qed

section \<open>Rounding to nearest is monotone and idempotent\<close>

lemma rne_cases: "rne t = \<lfloor>t\<rfloor> \<or> rne t = \<lfloor>t\<rfloor> + 1"
  by (simp add: rne_def Let_def)

lemma rne_of_int: "rne (real_of_int n) = n"
  by (simp add: rne_def)

lemma rne_ge: "real_of_int n \<le> t \<Longrightarrow> n \<le> rne t"
proof -
  assume "real_of_int n \<le> t"
  then have "n \<le> \<lfloor>t\<rfloor>" by linarith
  then show ?thesis using rne_cases [of t] by linarith
qed

lemma rne_le: "t \<le> real_of_int n \<Longrightarrow> rne t \<le> n"
proof (cases "t = real_of_int n")
  case True
  then show ?thesis by (simp add: rne_of_int)
next
  case False
  assume "t \<le> real_of_int n"
  with False have "t < real_of_int n" by simp
  then have "\<lfloor>t\<rfloor> < n" by linarith
  then show ?thesis using rne_cases [of t] by linarith
qed

lemma rne_mono: "s \<le> t \<Longrightarrow> rne s \<le> rne t"
proof -
  assume st: "s \<le> t"
  then have fl: "\<lfloor>s\<rfloor> \<le> \<lfloor>t\<rfloor>" by (rule floor_mono)
  show ?thesis
  proof (cases "\<lfloor>s\<rfloor> < \<lfloor>t\<rfloor>")
    case True
    then show ?thesis using rne_cases [of s] rne_cases [of t] by linarith
  next
    case False
    with fl have e: "\<lfloor>s\<rfloor> = \<lfloor>t\<rfloor>" by simp
    show ?thesis using st by (auto simp: rne_def Let_def e)
  qed
qed

lemma rne_minus: "rne (- t) = - rne t"
proof (cases "t = real_of_int \<lfloor>t\<rfloor>")
  case True
  then obtain n where "t = real_of_int n" ..
  then show ?thesis using rne_of_int [of "- n"] by (simp add: rne_of_int)
next
  case False
  then have f: "\<lfloor>- t\<rfloor> = - \<lfloor>t\<rfloor> - 1" by linarith
  have "even (- \<lfloor>t\<rfloor> - 1) = odd \<lfloor>t\<rfloor>" by simp
  then show ?thesis unfolding rne_def Let_def f by auto
qed


lemma expo_ge: "emin \<le> expoIEEE emin x"
  by (simp add: expoIEEE_def)

lemma expo_minus: "expoIEEE emin (- x) = expoIEEE emin x"
  by (simp add: expoIEEE_def)

lemma expo_upper:
  assumes "x \<noteq> 0"
  shows "\<bar>x\<bar> < 2 powr (real_of_int (expoIEEE emin x) + 1)"
proof -
  have p: "0 < \<bar>x\<bar>" using assms by simp
  have "log 2 \<bar>x\<bar> < real_of_int \<lfloor>log 2 \<bar>x\<bar>\<rfloor> + 1" by linarith
  also have "\<dots> \<le> real_of_int (expoIEEE emin x) + 1" by (simp add: expoIEEE_def)
  finally have "log 2 \<bar>x\<bar> < real_of_int (expoIEEE emin x) + 1" .
  then show ?thesis using p by (simp add: log_less_iff)
qed

lemma expo_lower:
  assumes "x \<noteq> 0" "emin < expoIEEE emin x"
  shows "2 powr real_of_int (expoIEEE emin x) \<le> \<bar>x\<bar>"
proof -
  have p: "0 < \<bar>x\<bar>" using assms by simp
  have e: "expoIEEE emin x = \<lfloor>log 2 \<bar>x\<bar>\<rfloor>" using assms(2) by (simp add: expoIEEE_def max_def split: if_splits)
  have "(real_of_int \<lfloor>log 2 \<bar>x\<bar>\<rfloor> \<le> log 2 \<bar>x\<bar>) =
      (2 powr real_of_int \<lfloor>log 2 \<bar>x\<bar>\<rfloor> \<le> \<bar>x\<bar>)"
    by (rule le_log_iff) (use p in simp_all)
  then show ?thesis unfolding e by simp
qed

lemma expo_mono:
  assumes "x \<noteq> 0" "\<bar>x\<bar> \<le> \<bar>y\<bar>"
  shows "expoIEEE emin x \<le> expoIEEE emin y"
proof -
  have p: "0 < \<bar>x\<bar>" using assms by simp
  have "log 2 \<bar>x\<bar> \<le> log 2 \<bar>y\<bar>" using p assms(2) by simp
  then have "\<lfloor>log 2 \<bar>x\<bar>\<rfloor> \<le> \<lfloor>log 2 \<bar>y\<bar>\<rfloor>" by (rule floor_mono)
  then show ?thesis by (simp add: expoIEEE_def)
qed

lemma ulp_pos: "0 < ulpIEEE p emin x"
  by (simp add: ulpIEEE_def)

lemma ulp_minus: "ulpIEEE p emin (- x) = ulpIEEE p emin x"
  by (simp add: ulpIEEE_def expo_minus)

lemma ulp_times_top:
  "real_of_int (2 ^ p) * ulpIEEE p emin x = 2 powr (real_of_int (expoIEEE emin x) + 1)"
proof -
  have "real_of_int (2 ^ p) = 2 powr real p" by (simp add: powr_realpow)
  then show ?thesis unfolding ulpIEEE_def by (simp add: powr_add [symmetric])
qed

lemma ulp_times_low:
  assumes "0 < p"
  shows "real_of_int (2 ^ (p - 1)) * ulpIEEE p emin x = 2 powr real_of_int (expoIEEE emin x)"
proof -
  have "real_of_int (2 ^ (p - 1)) = 2 powr real (p - 1)" by (simp add: powr_realpow)
  moreover have "real (p - 1) = real p - 1" using assms by (simp add: of_nat_diff)
  ultimately show ?thesis unfolding ulpIEEE_def by (simp add: powr_add [symmetric])
qed

lemma rnd_minus: "rndIEEE p emin (- x) = - rndIEEE p emin x"
  by (simp add: rndIEEE_def ulp_minus rne_minus)

lemma rnd_nonneg:
  assumes "0 \<le> x"
  shows "0 \<le> rndIEEE p emin x"
proof (cases "x = 0")
  case True
  then show ?thesis by (simp add: rndIEEE_def)
next
  case False
  have "0 \<le> x / ulpIEEE p emin x" using assms ulp_pos [of p emin x] by simp
  then have "0 \<le> rne (x / ulpIEEE p emin x)" using rne_ge [of 0] by simp
  then show ?thesis using False ulp_pos [of p emin x] by (simp add: rndIEEE_def)
qed

lemma rnd_le_top:
  assumes "0 < x"
  shows "rndIEEE p emin x \<le> 2 powr (real_of_int (expoIEEE emin x) + 1)"
proof -
  let ?q = "ulpIEEE p emin x"
  have nz: "x \<noteq> 0" using assms by simp
  have "x < real_of_int (2 ^ p) * ?q"
    using expo_upper [OF nz, of emin] assms unfolding ulp_times_top by simp
  then have "x / ?q \<le> real_of_int (2 ^ p)"
    using ulp_pos [of p emin x] by (simp add: divide_le_eq)
  then have "rne (x / ?q) \<le> 2 ^ p" by (rule rne_le)
  then have "real_of_int (rne (x / ?q)) \<le> real_of_int (2 ^ p)" by (simp only: of_int_le_iff)
  then have "real_of_int (rne (x / ?q)) * ?q \<le> real_of_int (2 ^ p) * ?q"
    using ulp_pos [of p emin x] by (simp only: mult_le_cancel_right) simp
  then show ?thesis unfolding ulp_times_top using nz by (simp add: rndIEEE_def)
qed

lemma rnd_ge_low:
  assumes "0 < x" "0 < p" "emin < expoIEEE emin x"
  shows "2 powr real_of_int (expoIEEE emin x) \<le> rndIEEE p emin x"
proof -
  let ?q = "ulpIEEE p emin x"
  have nz: "x \<noteq> 0" using assms by simp
  have "real_of_int (2 ^ (p - 1)) * ?q \<le> x"
    using expo_lower [OF nz assms(3)] assms(1) unfolding ulp_times_low [OF assms(2)] by simp
  then have "real_of_int (2 ^ (p - 1)) \<le> x / ?q"
    using ulp_pos [of p emin x] by (simp add: le_divide_eq)
  then have "2 ^ (p - 1) \<le> rne (x / ?q)" by (rule rne_ge)
  then have "real_of_int (2 ^ (p - 1)) \<le> real_of_int (rne (x / ?q))" by (simp only: of_int_le_iff)
  then have "real_of_int (2 ^ (p - 1)) * ?q \<le> real_of_int (rne (x / ?q)) * ?q"
    using ulp_pos [of p emin x] by (simp only: mult_le_cancel_right) simp
  then show ?thesis unfolding ulp_times_low [OF assms(2)] using nz by (simp add: rndIEEE_def)
qed

lemma rnd_mono_pos:
  assumes "0 < x" "x \<le> y" "0 < p"
  shows "rndIEEE p emin x \<le> rndIEEE p emin y"
proof -
  have yp: "0 < y" using assms by simp
  have nz: "x \<noteq> 0" "y \<noteq> 0" using assms by simp_all
  have le: "expoIEEE emin x \<le> expoIEEE emin y"
    by (rule expo_mono [OF nz(1)]) (use assms in simp)
  show ?thesis
  proof (cases "expoIEEE emin x = expoIEEE emin y")
    case True
    then have q: "ulpIEEE p emin x = ulpIEEE p emin y" by (simp add: ulpIEEE_def)
    have "x / ulpIEEE p emin y \<le> y / ulpIEEE p emin y"
      using assms(2) ulp_pos [of p emin y] by (simp add: divide_right_mono)
    then have "rne (x / ulpIEEE p emin y) \<le> rne (y / ulpIEEE p emin y)" by (rule rne_mono)
    then have "real_of_int (rne (x / ulpIEEE p emin y)) * ulpIEEE p emin y \<le>
        real_of_int (rne (y / ulpIEEE p emin y)) * ulpIEEE p emin y"
      using ulp_pos [of p emin y] by (simp only: mult_le_cancel_right of_int_le_iff) simp
    then show ?thesis using nz by (simp add: rndIEEE_def q)
  next
    case False
    with le have lt: "expoIEEE emin x < expoIEEE emin y" by simp
    then have n: "emin < expoIEEE emin y" using expo_ge [of emin x] by linarith
    have "real_of_int (expoIEEE emin x) + 1 \<le> real_of_int (expoIEEE emin y)"
      using lt by linarith
    then have "2 powr (real_of_int (expoIEEE emin x) + 1) \<le> 2 powr real_of_int (expoIEEE emin y)"
      by (simp only: powr_le_cancel_iff) 
    with rnd_le_top [OF assms(1), where p = p and emin = emin] rnd_ge_low [OF yp assms(3) n]
    show ?thesis by linarith
  qed
qed

lemma rnd_mono:
  assumes "0 < p" "x \<le> y"
  shows "rndIEEE p emin x \<le> rndIEEE p emin y"
proof -
  consider "0 < x" | "x \<le> 0" "0 \<le> y" | "y < 0" using assms(2) by linarith
  then show ?thesis
  proof cases
    case 1
    then show ?thesis by (rule rnd_mono_pos [OF _ assms(2) assms(1)])
  next
    case 2
    have "0 \<le> rndIEEE p emin (- x)" by (rule rnd_nonneg) (use 2 in simp)
    then have "rndIEEE p emin x \<le> 0" unfolding rnd_minus by simp
    moreover have "0 \<le> rndIEEE p emin y" by (rule rnd_nonneg [OF 2(2)])
    ultimately show ?thesis by linarith
  next
    case 3
    have "rndIEEE p emin (- y) \<le> rndIEEE p emin (- x)"
      by (rule rnd_mono_pos [OF _ _ assms(1)]) (use 3 assms(2) in simp_all)
    then show ?thesis unfolding rnd_minus by simp
  qed
qed


lemma expo_le:
  assumes "x \<noteq> 0" "\<bar>x\<bar> < 2 powr (real_of_int k + 1)" "emin \<le> k"
  shows "expoIEEE emin x \<le> k"
proof -
  have p: "0 < \<bar>x\<bar>" using assms by simp
  have "(log 2 \<bar>x\<bar> < real_of_int k + 1) = (\<bar>x\<bar> < 2 powr (real_of_int k + 1))"
    by (rule log_less_iff) (use p in simp_all)
  then have "log 2 \<bar>x\<bar> < real_of_int k + 1" using assms(2) by simp
  then have "\<lfloor>log 2 \<bar>x\<bar>\<rfloor> \<le> k" by linarith
  then show ?thesis using assms(3) by (simp add: expoIEEE_def)
qed

lemma rnd_grid:
  assumes "y = real_of_int k * ulpIEEE p emin y"
  shows "rndIEEE p emin y = y"
proof (cases "y = 0")
  case True
  then show ?thesis by (simp add: rndIEEE_def)
next
  case False
  have "y / ulpIEEE p emin y = real_of_int k"
    using assms ulp_pos [of p emin y] by (simp add: divide_eq_eq)
  then have "rne (y / ulpIEEE p emin y) = k" by (simp add: rne_of_int)
  then show ?thesis using False assms by (simp add: rndIEEE_def)
qed

lemma powr_int_diff:
  assumes "a \<le> b"
  shows "2 powr (real_of_int b - c) = real_of_int (2 ^ nat (b - a)) * 2 powr (real_of_int a - c)"
proof -
  have "real_of_int (2 ^ nat (b - a)) = 2 powr real (nat (b - a))" by (simp add: powr_realpow)
  moreover have "real (nat (b - a)) = real_of_int b - real_of_int a" using assms by simp
  ultimately show ?thesis by (simp add: powr_add [symmetric])
qed

lemma rnd_idem_pos:
  assumes "0 < x" "0 < p"
  shows "rndIEEE p emin (rndIEEE p emin x) = rndIEEE p emin x"
proof -
  let ?E = "expoIEEE emin x" and ?q = "ulpIEEE p emin x"
  let ?n = "rne (x / ?q)"
  let ?y = "rndIEEE p emin x"
  have nz: "x \<noteq> 0" using assms by simp
  have y: "?y = real_of_int ?n * ?q" using nz by (simp add: rndIEEE_def)
  have top: "?y \<le> 2 powr (real_of_int ?E + 1)" by (rule rnd_le_top [OF assms(1)])
  have nn: "0 \<le> ?y" by (rule rnd_nonneg) (use assms in simp)
  show ?thesis
  proof (cases "?y = 0")
    case True
    then show ?thesis by (simp add: rndIEEE_def)
  next
    case False
    with nn have yp: "0 < ?y" by simp
    show ?thesis
    proof (cases "?y < 2 powr (real_of_int ?E + 1)")
      case True
      have le: "expoIEEE emin ?y \<le> ?E"
        by (rule expo_le [OF False _ expo_ge]) (use True yp in simp)
      have "?q = real_of_int (2 ^ nat (?E - expoIEEE emin ?y)) * ulpIEEE p emin ?y"
        unfolding ulpIEEE_def by (rule powr_int_diff [OF le])
      then have "?y = real_of_int (?n * 2 ^ nat (?E - expoIEEE emin ?y)) * ulpIEEE p emin ?y"
        using y by simp
      then show ?thesis by (rule rnd_grid)
    next
      case False
      with top have e: "?y = 2 powr (real_of_int ?E + 1)" by simp
      have ex: "expoIEEE emin ?y = ?E + 1"
        by (rule expo_eval) (use e expo_ge [of emin x] in \<open>simp_all add: algebra_simps\<close>)
      have u: "ulpIEEE p emin ?y = 2 powr (real_of_int ?E + 1 - (real p - 1))"
        by (simp add: ulpIEEE_def ex)
      have k: "real_of_int (2 ^ (p - 1)) = 2 powr (real p - 1)"
        using assms(2) by (simp add: powr_realpow [symmetric] of_nat_diff)
      have "real_of_int (2 ^ (p - 1)) * ulpIEEE p emin ?y =
          2 powr ((real p - 1) + (real_of_int ?E + 1 - (real p - 1)))"
        unfolding u k by (simp only: powr_add)
      also have "(real p - 1) + (real_of_int ?E + 1 - (real p - 1)) = real_of_int ?E + 1"
        by simp
      finally have "?y = real_of_int (2 ^ (p - 1)) * ulpIEEE p emin ?y"
        using e by simp
      then show ?thesis by (rule rnd_grid)
    qed
  qed
qed

lemma rnd_idem:
  assumes "0 < p"
  shows "rndIEEE p emin (rndIEEE p emin x) = rndIEEE p emin x"
proof -
  consider "0 < x" | "x = 0" | "x < 0" by linarith
  then show ?thesis
  proof cases
    case 1
    then show ?thesis by (rule rnd_idem_pos [OF _ assms])
  next
    case 2
    then show ?thesis by (simp add: rndIEEE_def)
  next
    case 3
    then have "0 < - x" by simp
    from rnd_idem_pos [OF this assms, of emin] show ?thesis
      unfolding rnd_minus by simp
  qed
qed

text \<open>The arithmetic of the code has the properties the theorems on rounding assume.\<close>

lemma valid_binary64: "valid binary64"
proof -
  have "mono (rndIEEE 53 (- 1022))" by (rule monoI) (rule rnd_mono, simp)
  moreover have "\<forall>x. rndIEEE 53 (- 1022) (rndIEEE 53 (- 1022) x) = rndIEEE 53 (- 1022) x"
    by (intro allI rnd_idem) simp
  moreover have "rndIEEE 53 (- 1022) 0 = 0" by (simp add: rndIEEE_def)
  moreover have "inRange binary64 0"
    using max64_large by (simp add: inRange_def binary64_def)
  ultimately show ?thesis by (simp add: valid_def binary64_def)
qed

section \<open>Facts about the normaliser with rounding\<close>

lemma prepareF_nonempty:
  assumes "findRanges (c_points c) = Some r"
  shows "prepareF F S psr dc c =
      \<lparr>pF_id = c_id c,
       pF_pos = concat (map (\<lambda>p. [store S (fst (clipSpaceF F (renderSpaceF F (paddedBoundsF F r) p))),
                                    store S (snd (clipSpaceF F (renderSpaceF F (paddedBoundsF F r) p)))])
                           (c_points c)),
       pF_size = map (\<lambda>p. store S (pointSizeF F psr r p)) (c_points c),
       pF_color = concat (map (\<lambda>p. case pointColor dc c p of
                                      (cr, cg, cb) \<Rightarrow> [fl S cr, fl S cg, fl S cb])
                             (c_points c)),
       pF_count = length (c_points c),
       pF_xmin = add F (bF_xmin (paddedBoundsF F r)) (padXF F r),
       pF_xmax = sub F (bF_xmax (paddedBoundsF F r)) (padXF F r),
       pF_ymin = add F (bF_ymin (paddedBoundsF F r)) (padYF F r),
       pF_ymax = sub F (bF_ymax (paddedBoundsF F r)) (padYF F r)\<rparr>"
proof -
  have "c_points c \<noteq> []" using assms by (auto simp: findRanges_Nil)
  then show ?thesis using assms by (simp add: prepareF_def Let_def)
qed


lemma storedF:
  assumes "findRanges (c_points c) = Some r"
  shows "pF_xmin (prepareF F S psr dc c) = add F (bF_xmin (paddedBoundsF F r)) (padXF F r)"
    "pF_xmax (prepareF F S psr dc c) = sub F (bF_xmax (paddedBoundsF F r)) (padXF F r)"
    "pF_ymin (prepareF F S psr dc c) = add F (bF_ymin (paddedBoundsF F r)) (padYF F r)"
    "pF_ymax (prepareF F S psr dc c) = sub F (bF_ymax (paddedBoundsF F r)) (padYF F r)"
  by (simp_all add: prepareF_nonempty [OF assms])

lemma paddedF_sel:
  "bF_xmin (paddedBoundsF F r) = sub F (Fin (r_xmin r)) (padXF F r)"
  "bF_xmax (paddedBoundsF F r) = add F (Fin (r_xmax r)) (padXF F r)"
  "bF_ymin (paddedBoundsF F r) = sub F (Fin (r_ymin r)) (padYF F r)"
  "bF_ymax (paddedBoundsF F r) = add F (Fin (r_ymax r)) (padYF F r)"
  by (simp_all add: paddedBoundsF_def)

text \<open>The raw bounds of the scan are coordinates of points of the panel.\<close>

lemma scan_bounds_are_coordinates:
  assumes f: "findRanges (c_points c) = Some r"
  shows "r_xmin r \<in> pt_x ` set (c_points c)" "r_xmax r \<in> pt_x ` set (c_points c)"
    "r_ymin r \<in> pt_y ` set (c_points c)" "r_ymax r \<in> pt_y ` set (c_points c)"
proof -
  have ne: "c_points c \<noteq> []" using f by (auto simp: findRanges_Nil)
  from findRanges_nonempty [OF ne] f have
    e: "r_xmin r = Min (pt_x ` set (c_points c))" "r_xmax r = Max (pt_x ` set (c_points c))"
       "r_ymin r = Min (pt_y ` set (c_points c))" "r_ymax r = Max (pt_y ` set (c_points c))"
    by auto
  have fx: "finite (pt_x ` set (c_points c))" "pt_x ` set (c_points c) \<noteq> {}"
    and fy: "finite (pt_y ` set (c_points c))" "pt_y ` set (c_points c) \<noteq> {}"
    using ne by simp_all
  show "r_xmin r \<in> pt_x ` set (c_points c)" unfolding e by (rule Min_in [OF fx])
  show "r_xmax r \<in> pt_x ` set (c_points c)" unfolding e by (rule Max_in [OF fx])
  show "r_ymin r \<in> pt_y ` set (c_points c)" unfolding e by (rule Min_in [OF fy])
  show "r_ymax r \<in> pt_y ` set (c_points c)" unfolding e by (rule Max_in [OF fy])
qed

lemma scan_bounds_representable:
  assumes f: "findRanges (c_points c) = Some r"
    and rp: "\<forall>p \<in> set (c_points c). representable F (pt_x p) \<and> representable F (pt_y p)"
  shows "representable F (r_xmin r)" "representable F (r_xmax r)"
    "representable F (r_ymin r)" "representable F (r_ymax r)"
  using scan_bounds_are_coordinates [OF f] rp by auto

text \<open>The exact format gives the exact reading of the normaliser.\<close>

lemma jsOrN_exact: "jsOrN (Fin a) (Fin 1) = Fin (jsOr a 1)"
  by (simp add: jsOr_def)

lemma rangeDF_exact:
  "rangeDxF exact r = Fin (rangeDx r)" "rangeDyF exact r = Fin (rangeDy r)"
  unfolding rangeDxF_def rangeDyF_def sub_Fin_Fin fl_exact jsOrN_exact rangeDx_def rangeDy_def
  by (rule refl)+

lemma padF_exact:
  "padXF exact r = Fin (rangeDx r * padding)" "padYF exact r = Fin (rangeDy r * padding)"
  unfolding padXF_def padYF_def rangeDF_exact fl_exact mul.simps padding_def
  by (rule refl)+

lemma paddedBoundsF_exact:
  "paddedBoundsF exact r =
     \<lparr>bF_xmin = Fin (b_xmin (paddedBounds r)), bF_xmax = Fin (b_xmax (paddedBounds r)),
      bF_ymin = Fin (b_ymin (paddedBounds r)), bF_ymax = Fin (b_ymax (paddedBounds r))\<rparr>"
  by (simp add: paddedBoundsF_def padF_exact sub_Fin_Fin fl_exact paddedBounds_def)

lemma storedF_exact:
  assumes f: "findRanges (c_points c) = Some r"
  shows "pF_xmin (prepareF exact S psr dc c) = Fin (r_xmin r)"
    "pF_xmax (prepareF exact S psr dc c) = Fin (r_xmax r)"
    "pF_ymin (prepareF exact S psr dc c) = Fin (r_ymin r)"
    "pF_ymax (prepareF exact S psr dc c) = Fin (r_ymax r)"
  unfolding storedF [OF f] paddedBoundsF_exact padF_exact
  by (simp_all add: sub_Fin_Fin fl_exact paddedBounds_def)



section \<open>Concrete roundings of \<open>binary64\<close>\<close>

lemma fl64_zero: "x = 0 \<Longrightarrow> fl binary64 x = Fin 0"
  by (simp add: fl_def binary64_def rndIEEE_def Let_def)

lemma fl64_lit:
  assumes "x = 0.05"
  shows "fl binary64 x = Fin lit005"
  unfolding assms by (rule fl_b64 [OF r64_lit]) (simp add: lit005_def)

lemma fl64_lit_id:
  assumes "x = lit005"
  shows "fl binary64 x = Fin lit005"
  unfolding assms by (rule fl_b64 [OF r64_lit_id]) (simp add: lit005_def)

lemma fl64_large_minus:
  assumes "x = 1700000000000000 - lit005"
  shows "fl binary64 x = Fin 1700000000000000"
  unfolding assms by (rule fl_b64 [OF r64_large_minus]) (simp add: lit005_def)

lemma fl64_large_plus:
  assumes "x = 1700000000000000 + lit005"
  shows "fl binary64 x = Fin 1700000000000000"
  unfolding assms by (rule fl_b64 [OF r64_large_plus]) (simp add: lit005_def)





lemma fl64_ten:
  assumes "x = 10"
  shows "fl binary64 x = Fin 10"
  unfolding assms by (rule fl_b64 [OF r64_ten]) (simp add: lit005_def)

lemma fl64_ten_pad:
  assumes "x = 10 * lit005"
  shows "fl binary64 x = Fin (1 / 2)"
  unfolding assms by (rule fl_b64 [OF r64_ten_pad]) (simp add: lit005_def)

lemma fl64_minus_half:
  assumes "x = - (1 / 2)"
  shows "fl binary64 x = Fin (- (1 / 2))"
  unfolding assms by (rule fl_b64 [OF r64_minus_half]) (simp add: lit005_def)

lemma fl64_ten_half:
  assumes "x = 21 / 2"
  shows "fl binary64 x = Fin (21 / 2)"
  unfolding assms by (rule fl_b64 [OF r64_ten_half]) (simp add: lit005_def)


lemma fl64_quarter:
  assumes "x = 1 / 4"
  shows "fl binary64 x = Fin (1 / 4)"
  unfolding assms by (rule fl_b64 [OF r64_quarter]) simp

lemma fl64_half:
  assumes "x = 1 / 2"
  shows "fl binary64 x = Fin (1 / 2)"
  unfolding assms by (rule fl_b64 [OF r64_half]) simp

lemma fl64_quarter_pad:
  assumes "x = lit005 / 4"
  shows "fl binary64 x = Fin (lit005 / 4)"
  unfolding assms by (rule fl_b64 [OF r64_quarter_pad]) (simp add: lit005_def)

lemma fl64_quarter_minus:
  assumes "x = 1 / 4 - lit005 / 4"
  shows "fl binary64 x = Fin (4278419646001971 / 2 ^ 54)"
  unfolding assms by (rule fl_b64 [OF r64_quarter_minus]) simp

lemma fl64_half_plus:
  assumes "x = 1 / 2 + lit005 / 4"
  shows "fl binary64 x = Fin (2308094809027379 / 2 ^ 52)"
  unfolding assms by (rule fl_b64 [OF r64_half_plus]) simp

lemma paddedF_record:
  "paddedBoundsF F r =
     \<lparr>bF_xmin = bF_xmin (paddedBoundsF F r), bF_xmax = bF_xmax (paddedBoundsF F r),
      bF_ymin = bF_ymin (paddedBoundsF F r), bF_ymax = bF_ymax (paddedBoundsF F r)\<rparr>"
  by simp

text \<open>The single point with a large time: the padding is absorbed on the time axis.\<close>

lemma findRanges_panelN: "findRanges (c_points panelN) = Some rangesN"
  by (simp add: panelN_def pointN_def rangesN_def findRanges_def scanPoint_None nullish_def)

lemma padX_panelN: "padXF binary64 rangesN = Fin lit005"
proof -
  have d: "rangeDxF binary64 rangesN = Fin 1"
    by (simp add: rangeDxF_def rangesN_def sub_Fin_Fin fl64_zero)
  show ?thesis unfolding padXF_def d fl64_lit [OF refl] by (simp add: fl64_lit_id)
qed

lemma padded_panelN:
  "bF_xmin (paddedBoundsF binary64 rangesN) = Fin 1700000000000000"
  "bF_xmax (paddedBoundsF binary64 rangesN) = Fin 1700000000000000"
proof -
  show "bF_xmin (paddedBoundsF binary64 rangesN) = Fin 1700000000000000"
    unfolding paddedF_sel padX_panelN sub_Fin_Fin
    by (rule fl64_large_minus) (simp add: rangesN_def)
  show "bF_xmax (paddedBoundsF binary64 rangesN) = Fin 1700000000000000"
    unfolding paddedF_sel padX_panelN add.simps
    by (rule fl64_large_plus) (simp add: rangesN_def)
qed

lemma render_panelN: "fst (renderSpaceF binary64 (paddedBoundsF binary64 rangesN) pointN) = NaN"
proof -
  have px: "pt_x pointN = 1700000000000000" by (simp add: pointN_def)
  have z: "sub binary64 (Fin 1700000000000000) (Fin 1700000000000000) = Fin 0"
    unfolding sub_Fin_Fin by (rule fl64_zero) simp
  have u: "quot binary64 (Fin 0) (Fin 0) = NaN" by simp
  show ?thesis
    unfolding renderSpaceF_def Let_def fst_conv padded_panelN px z u
    by (simp add: add_NaN_right)
qed

lemma clip_NaN: "fst u = NaN \<Longrightarrow> fst (clipSpaceF F u) = NaN"
  by (simp add: clipSpaceF_def sub_NaN_left)


section \<open>Ranges of the placed coordinates\<close>

text \<open>
  Claim C5 does not hold of the code. For the panel with the single point
  \<open>(t = 1.7e15, p = 0.5)\<close> the time range is degenerate and falls back to 1, but in
  \<open>binary64\<close> the padding \<open>0.05\<close> is absorbed: both padded time bounds are
  \<open>1.7e15\<close>. The normalised time is \<open>0/0 = NaN\<close>, which \<open>Math.max(0, Math.min(1, ux))\<close>
  passes on, so the render-space and clip-space time coordinates are \<open>NaN\<close>, and the
  first entry of the position buffer is \<open>NaN\<close>: not within \<open>[0.15, 0.85]\<close> or \<open>[-1, 1]\<close>.
\<close>

theorem position_not_a_number:
  "findRanges (c_points panelN) = Some rangesN \<and>
   bF_xmin (paddedBoundsF binary64 rangesN) = Fin 1700000000000000 \<and>
   bF_xmax (paddedBoundsF binary64 rangesN) = Fin 1700000000000000 \<and>
   fst (renderSpaceF binary64 (paddedBoundsF binary64 rangesN) pointN) = NaN \<and>
   fst (clipSpaceF binary64 (renderSpaceF binary64 (paddedBoundsF binary64 rangesN) pointN)) = NaN \<and>
   pF_pos (prepareF binary64 binary32 psr dc panelN) ! 0 = NaN"
proof -
  have c: "fst (clipSpaceF binary64
      (renderSpaceF binary64 (paddedBoundsF binary64 rangesN) pointN)) = NaN"
    by (rule clip_NaN [OF render_panelN])
  have p: "pF_pos (prepareF binary64 binary32 psr dc panelN) ! 0 = NaN"
    unfolding prepareF_nonempty [OF findRanges_panelN]
    by (simp add: panelN_def c [unfolded panelN_def])
  show ?thesis
    by (intro conjI findRanges_panelN padded_panelN render_panelN c p)
qed


section \<open>What is stored on a prepared panel\<close>

lemma padded_record:
  assumes "paddedBoundsF F r =
      \<lparr>bF_xmin = Fin xa, bF_xmax = Fin xb, bF_ymin = Fin ya, bF_ymax = Fin yb\<rparr>"
  shows "sub F (Fin (r_xmin r)) (padXF F r) = Fin xa" "add F (Fin (r_xmax r)) (padXF F r) = Fin xb"
    "sub F (Fin (r_ymin r)) (padYF F r) = Fin ya" "add F (Fin (r_ymax r)) (padYF F r) = Fin yb"
    "bF_xmin (paddedBoundsF F r) = Fin xa" "bF_xmax (paddedBoundsF F r) = Fin xb"
    "bF_ymin (paddedBoundsF F r) = Fin ya" "bF_ymax (paddedBoundsF F r) = Fin yb"
  using assms by (simp_all add: paddedBoundsF_def)

text \<open>
  Claim C1, as amended. For every panel with at least one point, the bounds stored on
  its prepared panel are not the padded bounds but the padded bounds with the padding
  amount \<open>dx * 0.05\<close> (\<open>dy * 0.05\<close>) added back to the minimum and taken off the
  maximum. In exact arithmetic they are exactly the raw bounds of the scan, the least
  and greatest time and price of the points. In a rounding arithmetic (rounding monotone
  and leaving the numbers of the format as they are, as \<open>binary64\<close> does; coordinates
  that are numbers of the format; padded bounds that are finite) the padded bounds
  enclose the raw bounds of the scan, and the stored bounds are finite and lie between
  the padded bounds.
\<close>

theorem stored_bounds_between:
  assumes v: "valid F"
    and f: "findRanges (c_points c) = Some r"
    and rp: "\<forall>p \<in> set (c_points c). representable F (pt_x p) \<and> representable F (pt_y p)"
    and pb: "paddedBoundsF F r =
      \<lparr>bF_xmin = Fin xa, bF_xmax = Fin xb, bF_ymin = Fin ya, bF_ymax = Fin yb\<rparr>"
  shows "xa \<le> r_xmin r \<and> r_xmax r \<le> xb \<and> ya \<le> r_ymin r \<and> r_ymax r \<le> yb \<and>
    pF_xmin (prepareF F S psr dc c) = add F (Fin xa) (padXF F r) \<and>
    pF_xmax (prepareF F S psr dc c) = sub F (Fin xb) (padXF F r) \<and>
    pF_ymin (prepareF F S psr dc c) = add F (Fin ya) (padYF F r) \<and>
    pF_ymax (prepareF F S psr dc c) = sub F (Fin yb) (padYF F r) \<and>
    (\<exists>s t u w.
       pF_xmin (prepareF F S psr dc c) = Fin s \<and> pF_xmax (prepareF F S psr dc c) = Fin t \<and>
       pF_ymin (prepareF F S psr dc c) = Fin u \<and> pF_ymax (prepareF F S psr dc c) = Fin w \<and>
       xa \<le> s \<and> s \<le> xb \<and> xa \<le> t \<and> t \<le> xb \<and>
       ya \<le> u \<and> u \<le> yb \<and> ya \<le> w \<and> w \<le> yb) \<and>
    pF_xmin (prepareF exact S psr dc c) = Fin (r_xmin r) \<and>
    pF_xmax (prepareF exact S psr dc c) = Fin (r_xmax r) \<and>
    pF_ymin (prepareF exact S psr dc c) = Fin (r_ymin r) \<and>
    pF_ymax (prepareF exact S psr dc c) = Fin (r_ymax r) \<and>
    r_xmin r = Min (pt_x ` set (c_points c)) \<and> r_xmax r = Max (pt_x ` set (c_points c)) \<and>
    r_ymin r = Min (pt_y ` set (c_points c)) \<and> r_ymax r = Max (pt_y ` set (c_points c))"
proof -
  note o = findRanges_ordered [OF f]
  note rep = scan_bounds_representable [OF f rp]
  note pr = padded_record [OF pb]
  from axis_bounds [OF v o [THEN conjunct1] rep(1) rep(2) pr(1) pr(2)]
  obtain s t where
    s: "add F (Fin xa) (padXF F r) = Fin s" and t: "sub F (Fin xb) (padXF F r) = Fin t"
    and x: "xa \<le> r_xmin r" "r_xmax r \<le> xb" "xa \<le> s" "s \<le> xb" "xa \<le> t" "t \<le> xb"
    unfolding padXF_def rangeDxF_def by blast
  from axis_bounds [OF v o [THEN conjunct2] rep(3) rep(4) pr(3) pr(4)]
  obtain u w where
    u: "add F (Fin ya) (padYF F r) = Fin u" and w: "sub F (Fin yb) (padYF F r) = Fin w"
    and y: "ya \<le> r_ymin r" "r_ymax r \<le> yb" "ya \<le> u" "u \<le> yb" "ya \<le> w" "w \<le> yb"
    unfolding padYF_def rangeDyF_def by blast
  have st: "pF_xmin (prepareF F S psr dc c) = add F (Fin xa) (padXF F r)"
    "pF_xmax (prepareF F S psr dc c) = sub F (Fin xb) (padXF F r)"
    "pF_ymin (prepareF F S psr dc c) = add F (Fin ya) (padYF F r)"
    "pF_ymax (prepareF F S psr dc c) = sub F (Fin yb) (padYF F r)"
    unfolding storedF [OF f] pr by (rule refl)+
  have ex: "\<exists>s t u w.
       pF_xmin (prepareF F S psr dc c) = Fin s \<and> pF_xmax (prepareF F S psr dc c) = Fin t \<and>
       pF_ymin (prepareF F S psr dc c) = Fin u \<and> pF_ymax (prepareF F S psr dc c) = Fin w \<and>
       xa \<le> s \<and> s \<le> xb \<and> xa \<le> t \<and> t \<le> xb \<and>
       ya \<le> u \<and> u \<le> yb \<and> ya \<le> w \<and> w \<le> yb"
    unfolding st s t u w using x(3-6) y(3-6) by blast
  have ne: "c_points c \<noteq> []" using f by (auto simp: findRanges_Nil)
  from findRanges_nonempty [OF ne] f have
    m: "r_xmin r = Min (pt_x ` set (c_points c))" "r_xmax r = Max (pt_x ` set (c_points c))"
       "r_ymin r = Min (pt_y ` set (c_points c))" "r_ymax r = Max (pt_y ` set (c_points c))"
    by auto
  show ?thesis
    by (intro conjI x(1,2) y(1,2) st ex storedF_exact [OF f] m)
qed

text \<open>
  The panel with the points \<open>(t = 0, p = 0.25)\<close> and \<open>(t = 10, p = 0.5)\<close> in
  \<open>binary64\<close>: the padded time bounds are \<open>-0.5\<close> and \<open>10.5\<close>, the padded price
  bounds \<open>0.2375\<close> and \<open>0.5125\<close> as rounded, and the stored time bounds \<open>0\<close> and
  \<open>10\<close>.
\<close>

lemma findRanges_panelQ: "findRanges (c_points panelQ) = Some rangesQ"
  by (simp add: panelQ_def pointQ0_def pointQ1_def rangesQ_def findRanges_def
      scanPoint_None scanPoint_Some nullish_def)

lemma padX_panelQ: "padXF binary64 rangesQ = Fin (1 / 2)"
proof -
  have d: "rangeDxF binary64 rangesQ = Fin 10"
    by (simp add: rangeDxF_def rangesQ_def sub_Fin_Fin fl64_ten)
  show ?thesis unfolding padXF_def d fl64_lit [OF refl] mul.simps by (rule fl64_ten_pad) simp
qed

lemma padded_panelQ:
  "bF_xmin (paddedBoundsF binary64 rangesQ) = Fin (- (1 / 2))"
  "bF_xmax (paddedBoundsF binary64 rangesQ) = Fin (21 / 2)"
proof -
  show "bF_xmin (paddedBoundsF binary64 rangesQ) = Fin (- (1 / 2))"
    unfolding paddedF_sel padX_panelQ sub_Fin_Fin
    by (rule fl64_minus_half) (simp add: rangesQ_def)
  show "bF_xmax (paddedBoundsF binary64 rangesQ) = Fin (21 / 2)"
    unfolding paddedF_sel padX_panelQ add.simps
    by (rule fl64_ten_half) (simp add: rangesQ_def)
qed

lemma stored_panelQ:
  "pF_xmin (prepareF binary64 S psr dc panelQ) = Fin 0"
  "pF_xmax (prepareF binary64 S psr dc panelQ) = Fin 10"
proof -
  show "pF_xmin (prepareF binary64 S psr dc panelQ) = Fin 0"
    unfolding storedF [OF findRanges_panelQ] padded_panelQ padX_panelQ add.simps
    by (rule fl64_zero) simp
  show "pF_xmax (prepareF binary64 S psr dc panelQ) = Fin 10"
    unfolding storedF [OF findRanges_panelQ] padded_panelQ padX_panelQ sub_Fin_Fin
    by (rule fl64_ten) simp
qed

lemma padY_panelQ: "padYF binary64 rangesQ = Fin (lit005 / 4)"
proof -
  have d: "rangeDyF binary64 rangesQ = Fin (1 / 4)"
    by (simp add: rangeDyF_def rangesQ_def sub_Fin_Fin fl64_quarter)
  show ?thesis unfolding padYF_def d fl64_lit [OF refl] mul.simps
    by (rule fl64_quarter_pad) simp
qed

lemma paddedF_panelQ:
  "paddedBoundsF binary64 rangesQ =
     \<lparr>bF_xmin = Fin (- (1 / 2)), bF_xmax = Fin (21 / 2),
      bF_ymin = Fin (4278419646001971 / 2 ^ 54), bF_ymax = Fin (2308094809027379 / 2 ^ 52)\<rparr>"
proof -
  have y1: "bF_ymin (paddedBoundsF binary64 rangesQ) = Fin (4278419646001971 / 2 ^ 54)"
    unfolding paddedF_sel padY_panelQ sub_Fin_Fin
    by (rule fl64_quarter_minus) (simp add: rangesQ_def)
  have y2: "bF_ymax (paddedBoundsF binary64 rangesQ) = Fin (2308094809027379 / 2 ^ 52)"
    unfolding paddedF_sel padY_panelQ add.simps
    by (rule fl64_half_plus) (simp add: rangesQ_def)
  show ?thesis
    by (rule trans [OF paddedF_record]) (simp only: padded_panelQ y1 y2)
qed

lemma representable_panelQ:
  "\<forall>p \<in> set (c_points panelQ). representable binary64 (pt_x p) \<and> representable binary64 (pt_y p)"
  by (simp add: panelQ_def pointQ0_def pointQ1_def representable_def
      fl64_zero fl64_ten fl64_quarter fl64_half)

text \<open>The theorem at that panel, in the arithmetic of the code.\<close>

theorem stored_bounds_between_witness:
  "findRanges (c_points panelQ) = Some rangesQ \<and>
   paddedBoundsF binary64 rangesQ =
     \<lparr>bF_xmin = Fin (- (1 / 2)), bF_xmax = Fin (21 / 2),
      bF_ymin = Fin (4278419646001971 / 2 ^ 54), bF_ymax = Fin (2308094809027379 / 2 ^ 52)\<rparr> \<and>
   - (1 / 2) \<le> r_xmin rangesQ \<and> r_xmax rangesQ \<le> 21 / 2 \<and>
   4278419646001971 / 2 ^ 54 \<le> r_ymin rangesQ \<and>
   r_ymax rangesQ \<le> 2308094809027379 / 2 ^ 52 \<and>
   pF_xmin (prepareF binary64 binary32 (2, 12) (0.35, 0.52, 0.92) panelQ) =
     add binary64 (Fin (- (1 / 2))) (padXF binary64 rangesQ) \<and>
   pF_xmax (prepareF binary64 binary32 (2, 12) (0.35, 0.52, 0.92) panelQ) =
     sub binary64 (Fin (21 / 2)) (padXF binary64 rangesQ) \<and>
   pF_xmin (prepareF binary64 binary32 (2, 12) (0.35, 0.52, 0.92) panelQ) = Fin 0 \<and>
   pF_xmax (prepareF binary64 binary32 (2, 12) (0.35, 0.52, 0.92) panelQ) = Fin 10 \<and>
   pF_xmin (prepareF exact binary32 (2, 12) (0.35, 0.52, 0.92) panelQ) = Fin (r_xmin rangesQ) \<and>
   pF_xmax (prepareF exact binary32 (2, 12) (0.35, 0.52, 0.92) panelQ) = Fin (r_xmax rangesQ) \<and>
   pF_ymin (prepareF exact binary32 (2, 12) (0.35, 0.52, 0.92) panelQ) = Fin (r_ymin rangesQ) \<and>
   pF_ymax (prepareF exact binary32 (2, 12) (0.35, 0.52, 0.92) panelQ) = Fin (r_ymax rangesQ)"
proof -
  note t = stored_bounds_between [OF valid_binary64 findRanges_panelQ representable_panelQ
      paddedF_panelQ, of binary32 "(2, 12)" "(0.35, 0.52, 0.92)"]
  note t1 = t [THEN conjunct1]
  note t2 = t [THEN conjunct2, THEN conjunct1]
  note t3 = t [THEN conjunct2, THEN conjunct2, THEN conjunct1]
  note t4 = t [THEN conjunct2, THEN conjunct2, THEN conjunct2, THEN conjunct1]
  note t5 = t [THEN conjunct2, THEN conjunct2, THEN conjunct2, THEN conjunct2, THEN conjunct1]
  note t6 = t [THEN conjunct2, THEN conjunct2, THEN conjunct2, THEN conjunct2, THEN conjunct2,
      THEN conjunct1]
  note r = t [THEN conjunct2, THEN conjunct2, THEN conjunct2, THEN conjunct2, THEN conjunct2,
      THEN conjunct2, THEN conjunct2, THEN conjunct2, THEN conjunct2]
  note e1 = r [THEN conjunct1]
  note e2 = r [THEN conjunct2, THEN conjunct1]
  note e3 = r [THEN conjunct2, THEN conjunct2, THEN conjunct1]
  note e4 = r [THEN conjunct2, THEN conjunct2, THEN conjunct2, THEN conjunct1]
  show ?thesis
    by (intro conjI findRanges_panelQ paddedF_panelQ t1 t2 t3 t4 t5 t6 stored_panelQ
        e1 e2 e3 e4)
qed

text \<open>
  The claim as worded fails at that panel: the stored time bounds \<open>0\<close> and \<open>10\<close> are
  not the padded bounds \<open>-0.5\<close> and \<open>10.5\<close> the points are placed with.
\<close>

theorem stored_bounds_counterexample:
  "findRanges (c_points panelQ) = Some rangesQ \<and>
   bF_xmin (paddedBoundsF binary64 rangesQ) = Fin (- (1 / 2)) \<and>
   bF_xmax (paddedBoundsF binary64 rangesQ) = Fin (21 / 2) \<and>
   pF_xmin (prepareF binary64 binary32 (2, 12) (0.35, 0.52, 0.92) panelQ) = Fin 0 \<and>
   pF_xmax (prepareF binary64 binary32 (2, 12) (0.35, 0.52, 0.92) panelQ) = Fin 10 \<and>
   pF_xmin (prepareF binary64 binary32 (2, 12) (0.35, 0.52, 0.92) panelQ) \<noteq>
     bF_xmin (paddedBoundsF binary64 rangesQ) \<and>
   pF_xmax (prepareF binary64 binary32 (2, 12) (0.35, 0.52, 0.92) panelQ) \<noteq>
     bF_xmax (paddedBoundsF binary64 rangesQ)"
proof -
  have n: "pF_xmin (prepareF binary64 binary32 (2, 12) (0.35, 0.52, 0.92) panelQ) \<noteq>
     bF_xmin (paddedBoundsF binary64 rangesQ)"
    "pF_xmax (prepareF binary64 binary32 (2, 12) (0.35, 0.52, 0.92) panelQ) \<noteq>
     bF_xmax (paddedBoundsF binary64 rangesQ)"
    unfolding stored_panelQ padded_panelQ by simp_all
  show ?thesis by (intro conjI findRanges_panelQ padded_panelQ stored_panelQ n)
qed


section \<open>Order of the bounds and degenerate ranges\<close>















end
